theory Spec2Isabelle
  imports Main "HOL-Library.Word" "HOL-Library.AList" "HOL-Library.Sublist"
begin

section \<open>JavaScript values\<close>

text \<open>
  A JavaScript string is a sequence of UTF-16 code units, and a regular expression
  without the \<^verbatim>\<open>u\<close> flag works on code units. A literal of the source is written
  \<open>lit ''...''\<close>.
\<close>

type_synonym js_char = "16 word"
type_synonym js_string = "js_char list"

definition lit :: "string \<Rightarrow> js_string" where
  "lit s = map (\<lambda>c. of_char c) s"

text \<open>
  The values a parsed translation file, an options object or a placeholder index can
  hold. The code observes of a number only its truthiness and its type, so a number is
  represented by an integer (\<open>0\<close> stands for every falsy number). \<open>JFun\<close> is a
  function and \<open>JObj\<close> any other object that is not an array; neither has a method
  \<^verbatim>\<open>includes\<close> or \<^verbatim>\<open>every\<close>.
\<close>

datatype js_value =
    JUndefined
  | JNull
  | JBool bool
  | JNum int
  | JStr js_string
  | JArr "js_value list"
  | JObj
  | JFun

datatype js_type = TUndefined | TObject | TBoolean | TNumber | TString | TFunction

fun typeof :: "js_value \<Rightarrow> js_type" where
  "typeof JUndefined = TUndefined"
| "typeof JNull = TObject"
| "typeof (JBool _) = TBoolean"
| "typeof (JNum _) = TNumber"
| "typeof (JStr _) = TString"
| "typeof (JArr _) = TObject"
| "typeof JObj = TObject"
| "typeof JFun = TFunction"

fun truthy :: "js_value \<Rightarrow> bool" where
  "truthy JUndefined = False"
| "truthy JNull = False"
| "truthy (JBool b) = b"
| "truthy (JNum n) = (n \<noteq> 0)"
| "truthy (JStr s) = (s \<noteq> [])"
| "truthy (JArr _) = True"
| "truthy JObj = True"
| "truthy JFun = True"

text \<open>
  An object used as a dictionary is the list of its own enumerable properties in the
  order of \<^verbatim>\<open>Object.entries\<close>. The keys of an object are distinct, which the theorems
  that need it assume of a list.
\<close>

type_synonym js_object = "(js_string \<times> js_value) list"

text \<open>
  The objects of the code are plain objects: the \<^verbatim>\<open>{}\<close> of lines 55, 56, 165 and 167,
  and what the parser delivers, which is taken to be as plain. Their prototype is
  \<^verbatim>\<open>Object.prototype\<close>, whose members (those of Node.js 8 to 14) are eleven functions
  and the accessor \<^verbatim>\<open>__proto__\<close>, which reads as \<^verbatim>\<open>Object.prototype\<close> itself.
\<close>

definition PROTO :: js_string where
  "PROTO = lit ''__proto__''"

definition Object_prototype_functions :: "js_string list" where
  "Object_prototype_functions =
     [lit ''constructor'', lit ''__defineGetter__'', lit ''__defineSetter__'',
      lit ''hasOwnProperty'', lit ''__lookupGetter__'', lit ''__lookupSetter__'',
      lit ''isPrototypeOf'', lit ''propertyIsEnumerable'', lit ''toString'', lit ''valueOf'',
      lit ''toLocaleString'']"

definition inherited :: "js_string \<Rightarrow> js_value" where
  "inherited k =
     (if k = PROTO then JObj
      else if k \<in> set Object_prototype_functions then JFun
      else JUndefined)"

text \<open>
  A property read \<^verbatim>\<open>obj[key]\<close>: the own property when there is one, otherwise what the
  prototype has under the key, otherwise \<^verbatim>\<open>undefined\<close>.
\<close>

definition get_prop :: "js_object \<Rightarrow> js_string \<Rightarrow> js_value" where
  "get_prop obj k = (case map_of obj k of None \<Rightarrow> inherited k | Some v \<Rightarrow> v)"

section \<open>The two regular expressions\<close>

text \<open>
  \<^verbatim>\<open>\w\<close> is \<^verbatim>\<open>[A-Za-z0-9_]\<close>; \<^verbatim>\<open>\s\<close> is the white space and the line terminators of
  ECMAScript.
\<close>

definition is_word_char :: "js_char \<Rightarrow> bool" where
  "is_word_char c =
     ((0x41 \<le> c \<and> c \<le> 0x5A) \<or> (0x61 \<le> c \<and> c \<le> 0x7A) \<or> (0x30 \<le> c \<and> c \<le> 0x39) \<or> c = 0x5F)"

definition is_space_char :: "js_char \<Rightarrow> bool" where
  "is_space_char c =
     ((0x09 \<le> c \<and> c \<le> 0x0D) \<or> c = 0x20 \<or> c = 0xA0 \<or> c = 0x1680
      \<or> (0x2000 \<le> c \<and> c \<le> 0x200A) \<or> c = 0x2028 \<or> c = 0x2029 \<or> c = 0x202F
      \<or> c = 0x205F \<or> c = 0x3000 \<or> c = 0xFEFF)"

text \<open>The class \<^verbatim>\<open>[\s\w.#^/'|]\<close> of \<^verbatim>\<open>MUSTACHE_MATCHER = /{{[\s\w.#^/'|]+}}/g\<close>.\<close>

definition is_matcher_char :: "js_char \<Rightarrow> bool" where
  "is_matcher_char c =
     (is_space_char c \<or> is_word_char c \<or> c = 0x2E \<or> c = 0x23 \<or> c = 0x5E \<or> c = 0x2F
      \<or> c = 0x27 \<or> c = 0x7C)"

text \<open>The class \<^verbatim>\<open>[{}\s#^/']\<close> of \<^verbatim>\<open>MUSTACHE_REPLACER_MATCHER = /[{}\s#^/']*/g\<close>.\<close>

definition is_replacer_char :: "js_char \<Rightarrow> bool" where
  "is_replacer_char c =
     (c = 0x7B \<or> c = 0x7D \<or> is_space_char c \<or> c = 0x23 \<or> c = 0x5E \<or> c = 0x2F \<or> c = 0x27)"

text \<open>
  One attempt of \<^verbatim>\<open>/{{[\s\w.#^/'|]+}}/\<close> at the start of \<open>s\<close>: the matched span and
  what follows it. Neither brace is in the class, so the greedy \<^verbatim>\<open>+\<close> can only stop at
  the end of the longest run of class characters: a shorter run is followed by a class
  character, never by \<^verbatim>\<open>}}\<close>.
\<close>

fun span_at :: "js_string \<Rightarrow> (js_string \<times> js_string) option" where
  "span_at (a # b # r) =
     (if a = 0x7B \<and> b = 0x7B then
        (let body = takeWhile is_matcher_char r; rest = dropWhile is_matcher_char r
         in if body \<noteq> [] \<and> take 2 rest = [0x7D, 0x7D]
            then Some ([0x7B, 0x7B] @ body @ [0x7D, 0x7D], drop 2 rest)
            else None)
      else None)"
| "span_at _ = None"

lemma span_at_shorter: "span_at s = Some (m, r) \<Longrightarrow> length r < length s"
proof (cases s rule: span_at.cases)
  case (1 a b t)
  assume "span_at s = Some (m, r)"
  with 1 have "r = drop 2 (dropWhile is_matcher_char t)"
    by (auto simp: Let_def split: if_splits)
  moreover have "length (dropWhile is_matcher_char t) \<le> length t"
    by (rule length_dropWhile_le)
  ultimately show ?thesis using 1 by simp
qed simp_all

text \<open>
  \<^verbatim>\<open>s.match(MUSTACHE_MATCHER)\<close> with the \<^verbatim>\<open>g\<close> flag: every match from left to right,
  the search going on after the end of a match and one code unit further where there is
  none. JavaScript gives \<^verbatim>\<open>null\<close> when the list is empty.
\<close>

function all_matches :: "js_string \<Rightarrow> js_string list" where
  "all_matches [] = []"
| "all_matches (c # s) =
     (case span_at (c # s) of
        Some (m, r) \<Rightarrow> m # all_matches r
      | None \<Rightarrow> all_matches s)"
  by pat_completeness auto
termination
  by (relation "measure length") (auto dest: span_at_shorter)

definition match_MUSTACHE :: "js_string \<Rightarrow> js_string list option" where
  "match_MUSTACHE s = (if all_matches s = [] then None else Some (all_matches s))"

text \<open>\<^verbatim>\<open>s.replace(MUSTACHE_REPLACER_MATCHER, '')\<close> deletes every character of the class.\<close>

definition replace_MUSTACHE_REPLACER :: "js_string \<Rightarrow> js_string" where
  "replace_MUSTACHE_REPLACER s = filter (\<lambda>c. \<not> is_replacer_char c) s"

section \<open>Findings and failures\<close>

text \<open>
  The value a failed \<^verbatim>\<open>mf.compile\<close> throws: an error object, of which the code reads
  the \<^verbatim>\<open>message\<close>.
\<close>

datatype js_error = JsError (err_message: js_string)

text \<open>
  The four kinds are the strings \<^verbatim>\<open>'empty-message'\<close>, \<^verbatim>\<open>'missed-placeholder'\<close>,
  \<^verbatim>\<open>'wrong-placeholder'\<close> and \<^verbatim>\<open>'wrong-messageformat'\<close> of the \<^verbatim>\<open>error\<close> property.
\<close>

datatype error_kind = EmptyMessage | MissedPlaceholder | WrongPlaceholder | WrongMessageformat

text \<open>
  One element of the \<^verbatim>\<open>errors\<close> array. The documentation of \<^verbatim>\<open>checkTranslations\<close>
  lists a \<^verbatim>\<open>cause\<close> property; \<open>None\<close> is an object without that property.
\<close>

record finding =
  lang :: js_string
  error :: error_kind
  key :: js_string
  message :: js_string
  cause :: "js_error option"

text \<open>
  What a call can throw. \<open>Rejected\<close> is the failure of a collaborator (file discovery,
  file parsing), passed on unchanged. \<open>NotModelled\<close> is not an error of
  the code: it marks where the model stops, at an assignment to the key \<^verbatim>\<open>__proto__\<close>
  and at two coercions of \<^verbatim>\<open>includes\<close>. A run whose translation sets have no key
  \<^verbatim>\<open>__proto__\<close> never gets there (lemma \<open>checkTranslations_modelled\<close>).
\<close>

datatype failure =
    ReferenceError
  | TypeError
  | Rejected js_string
  | TranslationException js_string "finding list" "js_string list"
  | NotModelled

section \<open>Placeholder extraction\<close>

text \<open>
  \<^verbatim>\<open>extractPlaceholdersKeysFromMsg(message)\<close>: \<^verbatim>\<open>message.match\<close> is a method of strings
  only. On \<^verbatim>\<open>null\<close> and \<^verbatim>\<open>undefined\<close> the property read throws a TypeError; on any
  other non-string \<^verbatim>\<open>message.match\<close> is \<^verbatim>\<open>undefined\<close> and calling it throws a
  TypeError.
\<close>

definition extractPlaceholdersKeysFromMsg :: "js_value \<Rightarrow> failure + js_string list" where
  "extractPlaceholdersKeysFromMsg message' =
     (case message' of
        JStr s \<Rightarrow>
          (let placeholders = (case match_MUSTACHE s of None \<Rightarrow> [] | Some ms \<Rightarrow> ms)
           in Inr (map replace_MUSTACHE_REPLACER placeholders))
      | _ \<Rightarrow> Inl TypeError)"

text \<open>\<^verbatim>\<open>_.uniq\<close>: the first occurrence of every element, in order.\<close>

definition uniq :: "'a list \<Rightarrow> 'a list" where
  "uniq xs = foldl (\<lambda>result v. if v \<in> set result then result else result @ [v]) [] xs"

text \<open>
  Lines 169 to 176: the placeholders of one entry (\<open>primaryPlaceholders\<close>, lines 169 to
  172), then those of the extra set appended.
\<close>

definition primaryPlaceholders :: "js_value \<Rightarrow> failure + js_string list" where
  "primaryPlaceholders msgSrc =
     (if typeof msgSrc = TString then extractPlaceholdersKeysFromMsg msgSrc else Inr [])"

definition msgPlaceholders_of :: "js_object \<Rightarrow> js_string \<Rightarrow> js_value \<Rightarrow> failure + js_string list" where
  "msgPlaceholders_of extraPlaceholders msgKey msgSrc =
     (case primaryPlaceholders msgSrc of
        Inl e \<Rightarrow> Inl e
      | Inr msgPlaceholders \<Rightarrow>
          (if typeof (get_prop extraPlaceholders msgKey) = TString
           then (case extractPlaceholdersKeysFromMsg (get_prop extraPlaceholders msgKey) of
                   Inl e \<Rightarrow> Inl e
                 | Inr others \<Rightarrow> Inr (msgPlaceholders @ others))
           else Inr msgPlaceholders))"

text \<open>
  \<^verbatim>\<open>result[msgKey] = v\<close> on the index under construction, which starts as \<^verbatim>\<open>{}\<close> and
  has own data properties only: the assignment overwrites the own property or adds it
  last (\<open>AList.update\<close>), also under a key that names an inherited function, which it
  shadows. Under the key \<^verbatim>\<open>__proto__\<close> the assignment calls the setter of
  \<^verbatim>\<open>Object.prototype\<close> instead, which can replace the prototype of \<^verbatim>\<open>result\<close>; the
  model stops there.
\<close>

definition assign :: "js_object \<Rightarrow> js_string \<Rightarrow> js_value \<Rightarrow> failure + js_object" where
  "assign result k v = (if k = PROTO then Inl NotModelled else Inr (AList.update k v result))"

text \<open>Lines 177 to 181.\<close>

definition store_placeholders ::
  "js_object \<Rightarrow> js_string \<Rightarrow> js_string list \<Rightarrow> js_object \<Rightarrow> failure + js_object" where
  "store_placeholders extraPlaceholders msgKey msgPlaceholders result =
     (if msgPlaceholders \<noteq> [] then assign result msgKey (JArr (map JStr (uniq msgPlaceholders)))
      else if truthy (get_prop extraPlaceholders msgKey)
           then assign result msgKey (get_prop extraPlaceholders msgKey)
      else Inr result)"

fun extractEntries :: "js_object \<Rightarrow> js_object \<Rightarrow> js_object \<Rightarrow> failure + js_object" where
  "extractEntries extraPlaceholders [] result = Inr result"
| "extractEntries extraPlaceholders ((msgKey, msgSrc) # rest) result =
     (case msgPlaceholders_of extraPlaceholders msgKey msgSrc of
        Inl e \<Rightarrow> Inl e
      | Inr msgPlaceholders \<Rightarrow>
          (case store_placeholders extraPlaceholders msgKey msgPlaceholders result of
             Inl e \<Rightarrow> Inl e
           | Inr result' \<Rightarrow> extractEntries extraPlaceholders rest result'))"

text \<open>
  \<^verbatim>\<open>extractPlaceholdersFromTranslations(translations, extraPlaceholders = {})\<close>; \<open>None\<close>
  is the call with one argument.
\<close>

definition extractPlaceholdersFromTranslations :: "js_object \<Rightarrow> js_object option \<Rightarrow> failure + js_object" where
  "extractPlaceholdersFromTranslations translations extraPlaceholders =
     extractEntries (case extraPlaceholders of None \<Rightarrow> [] | Some e \<Rightarrow> e) translations []"

section \<open>The file validator\<close>

definition apostrophe :: js_string where
  "apostrophe = [0x27]"

definition empty_message :: "js_string \<Rightarrow> js_string \<Rightarrow> finding" where
  "empty_message lang' msgKey =
     \<lparr>lang = lang', error = EmptyMessage, key = msgKey,
      message = lit ''Empty message found for key '' @ apostrophe @ msgKey @ apostrophe
        @ lit '' in '' @ apostrophe @ lang' @ apostrophe @ lit '' translation'',
      cause = None\<rparr>"

definition missed_placeholder :: "js_string \<Rightarrow> js_string \<Rightarrow> finding" where
  "missed_placeholder lang' msgKey =
     \<lparr>lang = lang', error = MissedPlaceholder, key = msgKey,
      message = lit ''Cannot compile '' @ apostrophe @ lang' @ apostrophe
        @ lit '' translation with key '' @ apostrophe @ msgKey @ apostrophe
        @ lit '' has placeholders, ''
        @ lit ''but base translations does not have placeholders'',
      cause = None\<rparr>"

definition wrong_placeholder :: "js_string \<Rightarrow> js_string \<Rightarrow> finding" where
  "wrong_placeholder lang' msgKey =
     \<lparr>lang = lang', error = WrongPlaceholder, key = msgKey,
      message = lit ''Cannot compile '' @ apostrophe @ lang' @ apostrophe
        @ lit '' translation with key '' @ apostrophe @ msgKey @ apostrophe
        @ lit '' has placeholders ''
        @ lit ''that do not match any in the base translation provided'',
      cause = None\<rparr>"

text \<open>
  Lines 152 to 157: the object pushed for a message that does not compile has the four
  properties \<^verbatim>\<open>lang\<close>, \<^verbatim>\<open>error\<close>, \<^verbatim>\<open>key\<close> and \<^verbatim>\<open>message\<close>; the caught error
  \<open>e\<close> is used for its message text only.
\<close>

definition wrong_messageformat :: "js_string \<Rightarrow> js_string \<Rightarrow> js_string \<Rightarrow> js_error \<Rightarrow> finding" where
  "wrong_messageformat lang' msgKey msgSrc e =
     \<lparr>lang = lang', error = WrongMessageformat, key = msgKey,
      message = lit ''Cannot compile '' @ apostrophe @ lang' @ apostrophe
        @ lit '' translation '' @ msgKey @ lit '' = '' @ apostrophe @ msgSrc @ apostrophe
        @ lit '' : '' @ err_message e,
      cause = None\<rparr>"

text \<open>
  \<^verbatim>\<open>templatePlaceholder.includes(el)\<close>: membership for an array, a substring test for a
  string, and a TypeError for every other value, which has no \<^verbatim>\<open>includes\<close>. The
  element is a string wherever the code calls it; an element of another type would be
  compared by identity or coerced to a string, which the model leaves out.
\<close>

fun js_includes :: "js_value \<Rightarrow> js_value \<Rightarrow> failure + bool" where
  "js_includes (JArr vs) (JStr t) = Inr (JStr t \<in> set vs)"
| "js_includes (JArr vs) _ = Inl NotModelled"
| "js_includes (JStr s) (JStr t) = Inr (sublist t s)"
| "js_includes (JStr s) _ = Inl NotModelled"
| "js_includes _ _ = Inl TypeError"

text \<open>
  \<^verbatim>\<open>msgPlaceholders.every(el => templatePlaceholder.includes(el))\<close>: \<^verbatim>\<open>every\<close> is a
  method of arrays, and stops at the first element that is not included.
\<close>

fun every_includes_loop :: "js_value list \<Rightarrow> js_value \<Rightarrow> failure + bool" where
  "every_includes_loop [] templatePlaceholder = Inr True"
| "every_includes_loop (el # els) templatePlaceholder =
     (case js_includes templatePlaceholder el of
        Inl e \<Rightarrow> Inl e
      | Inr found \<Rightarrow> if found then every_includes_loop els templatePlaceholder else Inr False)"

definition every_includes :: "js_value \<Rightarrow> js_value \<Rightarrow> failure + bool" where
  "every_includes msgPlaceholders templatePlaceholder =
     (case msgPlaceholders of
        JArr els \<Rightarrow> every_includes_loop els templatePlaceholder
      | _ \<Rightarrow> Inl TypeError)"

text \<open>
  What a run does besides computing its result: the paths given to
  \<^verbatim>\<open>parseProperties\<close> and the messages given to \<^verbatim>\<open>mf.compile\<close> (with the language of
  the compiler), in order.
\<close>

datatype event = Parsed js_string | Compiled js_string js_string

text \<open>
  A compiler is what \<^verbatim>\<open>mf.compile\<close> does with a message: \<open>None\<close> when it compiles,
  \<open>Some e\<close> when it throws \<open>e\<close>.
\<close>

type_synonym compiler = "js_string \<Rightarrow> js_error option"

text \<open>
  The body of the loop of \<^verbatim>\<open>checkFileTranslations\<close> (lines 111 to 160) for one entry:
  the findings it pushes and the calls of the compiler it makes. \<open>templatePlaceholders\<close>
  is \<open>None\<close> for \<^verbatim>\<open>null\<close>, and \<open>mf\<close> is \<open>None\<close> for \<^verbatim>\<open>null\<close>.
\<close>

definition checkMessage ::
  "js_string \<Rightarrow> compiler option \<Rightarrow> js_object \<Rightarrow> js_object option \<Rightarrow> js_value
     \<Rightarrow> js_string \<Rightarrow> js_value \<Rightarrow> (failure + finding list) \<times> event list" where
  "checkMessage lang' mf placeholders templatePlaceholders checkEmpties msgKey msgSrc =
     (if \<not> truthy msgSrc then
        (if truthy checkEmpties then (Inr [empty_message lang' msgKey], []) else (Inr [], []))
      else
        (case msgSrc of
           JStr s \<Rightarrow>
             (if match_MUSTACHE s \<noteq> None then
                (case templatePlaceholders of
                   None \<Rightarrow> (Inr [], [])
                 | Some tp \<Rightarrow>
                     (let msgPlaceholders = get_prop placeholders msgKey in
                      if truthy msgPlaceholders then
                        (let templatePlaceholder = get_prop tp msgKey in
                         if \<not> truthy templatePlaceholder
                         then (Inr [missed_placeholder lang' msgKey], [])
                         else
                           (case every_includes msgPlaceholders templatePlaceholder of
                              Inl e \<Rightarrow> (Inl e, [])
                            | Inr foundAllPlaceholders \<Rightarrow>
                                if \<not> foundAllPlaceholders
                                then (Inr [wrong_placeholder lang' msgKey], [])
                                else (Inr [], [])))
                      else (Inr [], [])))
              else
                (case mf of
                   None \<Rightarrow> (Inr [], [])
                 | Some compile \<Rightarrow>
                     (case compile s of
                        None \<Rightarrow> (Inr [], [Compiled lang' s])
                      | Some e \<Rightarrow>
                          (Inr [wrong_messageformat lang' msgKey s e], [Compiled lang' s]))))
         | _ \<Rightarrow> (Inr [], [])))"

text \<open>
  The loop over \<^verbatim>\<open>Object.entries(translations)\<close>. A finding is data: the loop goes on
  after it. Only a thrown error ends it.
\<close>

fun checkEntries ::
  "js_string \<Rightarrow> compiler option \<Rightarrow> js_object \<Rightarrow> js_object option \<Rightarrow> js_value
     \<Rightarrow> js_object \<Rightarrow> (failure + finding list) \<times> event list" where
  "checkEntries lang' mf placeholders templatePlaceholders checkEmpties [] = (Inr [], [])"
| "checkEntries lang' mf placeholders templatePlaceholders checkEmpties ((msgKey, msgSrc) # rest) =
     (case checkMessage lang' mf placeholders templatePlaceholders checkEmpties msgKey msgSrc of
        (Inl e, ev) \<Rightarrow> (Inl e, ev)
      | (Inr pushed, ev) \<Rightarrow>
          (case checkEntries lang' mf placeholders templatePlaceholders checkEmpties rest of
             (Inl e, ev') \<Rightarrow> (Inl e, ev @ ev')
           | (Inr errors, ev') \<Rightarrow> (Inr (pushed @ errors), ev @ ev')))"

text \<open>
  The collaborators of the module, which are not part of it: file discovery, the parser
  of a properties file, \<^verbatim>\<open>path.join\<close>, the language of a file name, and the
  constructor of \<^verbatim>\<open>MessageFormat\<close> (\<open>None\<close> when it throws). A collaborator that
  fails gives the description of its failure.
\<close>

record world =
  translationFileNames :: "js_string \<Rightarrow> js_value \<Rightarrow> js_string + js_string list"
  parseProperties :: "js_string \<Rightarrow> js_string + js_object"
  path_join :: "js_string \<Rightarrow> js_string \<Rightarrow> js_string"
  fileLanguage :: "js_string \<Rightarrow> js_string"
  MessageFormat :: "js_string \<Rightarrow> compiler option"

definition checkFileTranslations ::
  "world \<Rightarrow> js_object \<Rightarrow> js_string \<Rightarrow> js_object option \<Rightarrow> js_value \<Rightarrow> js_value
     \<Rightarrow> (failure + finding list) \<times> event list" where
  "checkFileTranslations w translations fileName templatePlaceholders checkMessageformat' checkEmpties' =
     (let lang' = fileLanguage w fileName;
          mf = (if truthy checkMessageformat' then MessageFormat w lang' else None)
      in case extractPlaceholdersFromTranslations translations None of
           Inl e \<Rightarrow> (Inl e, [])
         | Inr placeholders \<Rightarrow>
             checkEntries lang' mf placeholders templatePlaceholders checkEmpties' translations)"

section \<open>The orchestrator\<close>

definition EN_FILE :: js_string where
  "EN_FILE = lit ''messages-en.properties''"

definition EX_FILE :: js_string where
  "EX_FILE = lit ''messages-ex.properties''"

record options_obj =
  languages :: js_value
  checkPlaceholders :: js_value
  checkMessageformat :: js_value
  checkEmpties :: js_value

text \<open>
  The second argument of \<^verbatim>\<open>checkTranslations\<close>, which the parameter
  \<^verbatim>\<open>{ checkPlaceholders=true, checkMessageformat=true, checkEmpties=true }={}\<close>
  destructures: the default \<^verbatim>\<open>{}\<close> stands for an omitted argument, a property that is
  \<^verbatim>\<open>undefined\<close> gets \<^verbatim>\<open>true\<close>, and \<^verbatim>\<open>null\<close> cannot be destructured.
\<close>

datatype call_arg = Omitted | PassedNull | Passed options_obj

definition default_true :: "js_value \<Rightarrow> js_value" where
  "default_true v = (if v = JUndefined then JBool True else v)"

definition destructure :: "call_arg \<Rightarrow> failure + js_value \<times> js_value \<times> js_value" where
  "destructure arg =
     (case arg of
        Omitted \<Rightarrow> Inr (JBool True, JBool True, JBool True)
      | PassedNull \<Rightarrow> Inl TypeError
      | Passed given \<Rightarrow>
          Inr (default_true (checkPlaceholders given), default_true (checkMessageformat given),
               default_true (checkEmpties given)))"

text \<open>
  The body of \<^verbatim>\<open>checkTranslations\<close> reads the identifier \<^verbatim>\<open>options\<close>, which is neither
  a parameter nor a variable of the module: it resolves in the global scope of the host.
  \<open>Unbound\<close> is a host that defines no such global (reading it throws a
  ReferenceError), \<open>BoundNull\<close> one that binds it to \<^verbatim>\<open>null\<close> or \<^verbatim>\<open>undefined\<close>.
\<close>

datatype binding = Unbound | BoundNull | Bound options_obj

definition parse :: "world \<Rightarrow> js_string \<Rightarrow> js_string \<Rightarrow> (failure + js_object) \<times> event list" where
  "parse w dir fileName =
     ((case parseProperties w (path_join w dir fileName) of
         Inl reason \<Rightarrow> Inl (Rejected reason)
       | Inr translations \<Rightarrow> Inr translations),
      [Parsed (path_join w dir fileName)])"

text \<open>Lines 55 to 66: the two template files and the template placeholders.\<close>

definition loadTemplates ::
  "world \<Rightarrow> options_obj \<Rightarrow> js_string \<Rightarrow> js_string list
     \<Rightarrow> (failure + js_object \<times> js_object \<times> js_object option) \<times> event list" where
  "loadTemplates w options dir fileNames =
     (if truthy (checkPlaceholders options) then
        (case (if EN_FILE \<in> set fileNames then parse w dir EN_FILE else (Inr [], [])) of
           (Inl e, ev) \<Rightarrow> (Inl e, ev)
         | (Inr enTranslations, ev) \<Rightarrow>
             (case (if EX_FILE \<in> set fileNames then parse w dir EX_FILE else (Inr [], [])) of
                (Inl e, ev') \<Rightarrow> (Inl e, ev @ ev')
              | (Inr exTranslations, ev') \<Rightarrow>
                  (case extractPlaceholdersFromTranslations enTranslations (Some exTranslations) of
                     Inl e \<Rightarrow> (Inl e, ev @ ev')
                   | Inr templatePlaceholders \<Rightarrow>
                       (Inr (enTranslations, exTranslations, Some templatePlaceholders), ev @ ev'))))
      else (Inr ([], [], None), []))"

text \<open>Lines 68 to 75: the translations of one file of the loop.\<close>

definition translations_of ::
  "world \<Rightarrow> options_obj \<Rightarrow> js_string \<Rightarrow> js_object \<Rightarrow> js_object \<Rightarrow> js_string
     \<Rightarrow> (failure + js_object) \<times> event list" where
  "translations_of w options dir enTranslations exTranslations fileName =
     (if truthy (checkPlaceholders options) \<and> fileName = EN_FILE then (Inr enTranslations, [])
      else if truthy (checkPlaceholders options) \<and> fileName = EX_FILE then (Inr exTranslations, [])
      else parse w dir fileName)"

text \<open>
  Lines 68 to 83, the body of the loop over the file names: the findings one file adds.
  The extra file is loaded like the others and not validated.
\<close>

definition validateFile ::
  "world \<Rightarrow> options_obj \<Rightarrow> js_string \<Rightarrow> js_object \<Rightarrow> js_object \<Rightarrow> js_object option
     \<Rightarrow> js_string \<Rightarrow> (failure + finding list) \<times> event list" where
  "validateFile w options dir enTranslations exTranslations templatePlaceholders fileName =
     (case translations_of w options dir enTranslations exTranslations fileName of
        (Inl e, ev) \<Rightarrow> (Inl e, ev)
      | (Inr translations, ev) \<Rightarrow>
          if fileName \<noteq> EX_FILE
          then (case checkFileTranslations w translations fileName templatePlaceholders
                       (checkMessageformat options) (checkEmpties options) of
                  (r, ev') \<Rightarrow> (r, ev @ ev'))
          else (Inr [], ev))"

text \<open>Lines 67 to 84: the loop over the file names. Only a thrown error ends it.\<close>

fun validateFiles ::
  "world \<Rightarrow> options_obj \<Rightarrow> js_string \<Rightarrow> js_object \<Rightarrow> js_object \<Rightarrow> js_object option
     \<Rightarrow> js_string list \<Rightarrow> (failure + finding list) \<times> event list" where
  "validateFiles w options dir enTranslations exTranslations templatePlaceholders [] = (Inr [], [])"
| "validateFiles w options dir enTranslations exTranslations templatePlaceholders (fileName # rest) =
     (case validateFile w options dir enTranslations exTranslations templatePlaceholders fileName of
        (Inl e, ev) \<Rightarrow> (Inl e, ev)
      | (Inr pushed, ev) \<Rightarrow>
          (case validateFiles w options dir enTranslations exTranslations
                  templatePlaceholders rest of
             (Inl e, ev') \<Rightarrow> (Inl e, ev @ ev')
           | (Inr errors, ev') \<Rightarrow> (Inr (pushed @ errors), ev @ ev')))"

definition aggregate_message :: js_string where
  "aggregate_message = lit ''Error trying to compile translations''"

text \<open>
  \<^verbatim>\<open>checkTranslations(dir, arg)\<close> in a host whose global scope binds \<^verbatim>\<open>options\<close> as
  \<open>outer\<close> says. The three variables of the destructured parameter are never read.
\<close>

definition checkTranslations ::
  "world \<Rightarrow> binding \<Rightarrow> js_string \<Rightarrow> call_arg \<Rightarrow> (failure + js_string list) \<times> event list" where
  "checkTranslations w outer dir arg =
     (case destructure arg of
        Inl e \<Rightarrow> (Inl e, [])
      | Inr (checkPlaceholders', checkMessageformat', checkEmpties') \<Rightarrow>
          (case outer of
             Unbound \<Rightarrow> (Inl ReferenceError, [])
           | BoundNull \<Rightarrow> (Inl TypeError, [])
           | Bound options \<Rightarrow>
               (case translationFileNames w dir (languages options) of
                  Inl reason \<Rightarrow> (Inl (Rejected reason), [])
                | Inr fileNames \<Rightarrow>
                    (case loadTemplates w options dir fileNames of
                       (Inl e, ev) \<Rightarrow> (Inl e, ev)
                     | (Inr (enTranslations, exTranslations, templatePlaceholders), ev) \<Rightarrow>
                         (case validateFiles w options dir enTranslations exTranslations
                                 templatePlaceholders fileNames of
                            (Inl e, ev') \<Rightarrow> (Inl e, ev @ ev')
                          | (Inr errors, ev') \<Rightarrow>
                              if errors \<noteq> []
                              then (Inl (TranslationException aggregate_message errors fileNames),
                                    ev @ ev')
                              else (Inr fileNames, ev @ ev'))))))"

section \<open>Notions for stating the properties\<close>

text \<open>The tokens of a message: its spans, normalised.\<close>

definition tokens :: "js_string \<Rightarrow> js_string list" where
  "tokens s = map replace_MUSTACHE_REPLACER (all_matches s)"

text \<open>The tokens a value contributes: those of a string, none of any other value.\<close>

definition string_tokens :: "js_value \<Rightarrow> js_string list" where
  "string_tokens v = (case v of JStr s \<Rightarrow> tokens s | _ \<Rightarrow> [])"



text \<open>What the entry \<open>(k, v)\<close> assigns to \<open>result[k]\<close> (lines 177 to 181), if anything.\<close>

definition stored :: "js_object \<Rightarrow> js_string \<Rightarrow> js_value \<Rightarrow> js_value option" where
  "stored e k v =
     (let ps = string_tokens v @ string_tokens (get_prop e k)
      in if ps \<noteq> [] then Some (JArr (map JStr (uniq ps)))
         else if truthy (get_prop e k) then Some (get_prop e k)
         else None)"

text \<open>The findings of a step that threw nothing.\<close>

definition pushed :: "(failure + finding list) \<times> event list \<Rightarrow> finding list" where
  "pushed r = (case fst r of Inl e \<Rightarrow> [] | Inr found \<Rightarrow> found)"

text \<open>The first error thrown in a sequence of steps, if any step throws.\<close>

fun first_thrown :: "(failure + 'a) list \<Rightarrow> failure option" where
  "first_thrown [] = None"
| "first_thrown (Inl e # rs) = Some e"
| "first_thrown (Inr x # rs) = first_thrown rs"


section \<open>A sample directory\<close>

text \<open>
  The scenarios of the spec in one directory: a base file, a Spanish file with one
  defect of each kind, and an extra file. Discovery gives the three files, or the base
  file alone when the languages asked for are \<^verbatim>\<open>['en']\<close>. The compiler of the sample
  rejects the unterminated message of scenario D and accepts every other message; there
  is a compiler for \<^verbatim>\<open>en\<close> and \<^verbatim>\<open>es\<close> and none for any other language.
\<close>

definition ES_FILE :: js_string where
  "ES_FILE = lit ''messages-es.properties''"

definition sample_en :: js_object where
  "sample_en =
     [(lit ''greeting'', JStr (lit ''Hello {{name}}'')),
      (lit ''farewell'', JStr (lit ''Bye''))]"

definition sample_es :: js_object where
  "sample_es =
     [(lit ''greeting'', JStr (lit ''Hola {{nombre}}'')),
      (lit ''farewell'', JStr (lit ''Adios {{name}}'')),
      (lit ''count'', JNull),
      (lit ''plural'', JStr (lit ''{count, plural, one{1} other{}''))]"

definition sample_ex :: js_object where
  "sample_ex = [(lit ''greeting'', JStr (lit ''{{title}}''))]"

definition sample_error :: js_error where
  "sample_error = JsError (lit ''Expected [a-z] but end of input found.'')"

definition sample_compiler :: compiler where
  "sample_compiler m =
     (if m = lit ''{count, plural, one{1} other{}'' then Some sample_error else None)"

definition sample_world :: world where
  "sample_world =
     \<lparr>translationFileNames = (\<lambda>dir languages.
        if languages = JArr [JStr (lit ''en'')] then Inr [EN_FILE]
        else Inr [EN_FILE, ES_FILE, EX_FILE]),
      parseProperties = (\<lambda>p.
        if p = lit ''dir/messages-en.properties'' then Inr sample_en
        else if p = lit ''dir/messages-es.properties'' then Inr sample_es
        else if p = lit ''dir/messages-ex.properties'' then Inr sample_ex
        else Inl (lit ''ENOENT'')),
      path_join = (\<lambda>dir fileName. dir @ lit ''/'' @ fileName),
      fileLanguage = (\<lambda>fileName. take 2 (drop 9 fileName)),
      MessageFormat = (\<lambda>l. if l = lit ''en'' \<or> l = lit ''es'' then Some sample_compiler else None)\<rparr>"

text \<open>Four values of \<^verbatim>\<open>options\<close>.\<close>

definition all_on :: options_obj where
  "all_on = \<lparr>languages = JUndefined, checkPlaceholders = JBool True,
             checkMessageformat = JBool True, checkEmpties = JBool True\<rparr>"

definition all_off :: options_obj where
  "all_off = \<lparr>languages = JArr [JStr (lit ''en'')], checkPlaceholders = JBool False,
              checkMessageformat = JBool False, checkEmpties = JBool False\<rparr>"

definition en_only :: options_obj where
  "en_only = \<lparr>languages = JArr [JStr (lit ''en'')], checkPlaceholders = JBool True,
              checkMessageformat = JBool True, checkEmpties = JBool True\<rparr>"


text \<open>A file name whose language has no compiler.\<close>

definition XX_FILE :: js_string where
  "XX_FILE = lit ''messages-xx.properties''"







section \<open>Facts about extraction\<close>

lemma brace_chars:
  "\<not> is_matcher_char 0x7B" "\<not> is_matcher_char 0x7D"
  "is_replacer_char 0x7B" "is_replacer_char 0x7D"
  by (simp_all add: is_matcher_char_def is_replacer_char_def is_space_char_def is_word_char_def)

lemma foldl_uniq_set:
  "set (foldl (\<lambda>result v. if v \<in> set result then result else result @ [v]) acc xs) = set acc \<union> set xs"
  by (induction xs arbitrary: acc) auto

lemma foldl_uniq_distinct:
  "distinct acc \<Longrightarrow> distinct (foldl (\<lambda>result v. if v \<in> set result then result else result @ [v]) acc xs)"
  by (induction xs arbitrary: acc) auto

lemma set_uniq: "set (uniq xs) = set xs"
  by (simp add: uniq_def foldl_uniq_set)

lemma distinct_uniq: "distinct (uniq xs)"
  by (simp add: uniq_def foldl_uniq_distinct)

lemma uniq_eq_Nil: "uniq xs = [] \<longleftrightarrow> xs = []"
  using set_uniq [of xs] by (metis set_empty)

lemma extract_string: "extractPlaceholdersKeysFromMsg (JStr s) = Inr (tokens s)"
  by (simp add: extractPlaceholdersKeysFromMsg_def match_MUSTACHE_def tokens_def)

text \<open>
  The extractor itself has no type test: called with a value that is not a string it
  throws. Both calls of it (lines 171 and 175) are behind a test of the type.
\<close>

lemma extract_non_string: "typeof v \<noteq> TString \<Longrightarrow> extractPlaceholdersKeysFromMsg v = Inl TypeError"
  by (cases v) (simp_all add: extractPlaceholdersKeysFromMsg_def)

lemma span_at_shape:
  assumes "span_at s = Some (m, r)"
  shows "\<exists>body. body \<noteq> [] \<and> list_all is_matcher_char body \<and> m = [0x7B, 0x7B] @ body @ [0x7D, 0x7D]"
proof (cases s rule: span_at.cases)
  case (1 a b t)
  with assms have "m = [0x7B, 0x7B] @ takeWhile is_matcher_char t @ [0x7D, 0x7D]"
    and "takeWhile is_matcher_char t \<noteq> []"
    by (auto simp: Let_def split: if_splits)
  moreover have "list_all is_matcher_char (takeWhile is_matcher_char t)"
    by (simp add: list_all_iff) (meson set_takeWhileD)
  ultimately show ?thesis by blast
qed (use assms in simp_all)

lemma all_matches_shape:
  "m \<in> set (all_matches s) \<Longrightarrow>
     \<exists>body. body \<noteq> [] \<and> list_all is_matcher_char body \<and> m = [0x7B, 0x7B] @ body @ [0x7D, 0x7D]"
proof (induction s rule: all_matches.induct)
  case 1
  then show ?case by simp
next
  case (2 c s)
  show ?case
  proof (cases "span_at (c # s)")
    case None
    with 2 show ?thesis by simp
  next
    case (Some p)
    obtain m' r where p: "p = (m', r)" by (cases p)
    with Some 2 show ?thesis
      by (auto dest: span_at_shape)
  qed
qed

lemma no_brace_no_match: "0x7B \<notin> set s \<Longrightarrow> all_matches s = []"
proof (induction s rule: all_matches.induct)
  case 1
  then show ?case by simp
next
  case (2 c s)
  have "span_at (c # s) = None"
    using 2(3) by (cases s) auto
  with 2 show ?case by simp
qed

lemma strip_idem: "replace_MUSTACHE_REPLACER (replace_MUSTACHE_REPLACER t) = replace_MUSTACHE_REPLACER t"
  by (simp add: replace_MUSTACHE_REPLACER_def)

lemma wrapped_match:
  assumes "t \<noteq> []" "list_all is_matcher_char t"
  shows "all_matches ([0x7B, 0x7B] @ t @ [0x7D, 0x7D]) = [[0x7B, 0x7B] @ t @ [0x7D, 0x7D]]"
proof -
  have tw: "takeWhile is_matcher_char (t @ [0x7D, 0x7D]) = t"
    using assms(2) brace_chars(2) by (simp add: list_all_iff)
  have dw: "dropWhile is_matcher_char (t @ [0x7D, 0x7D]) = [0x7D, 0x7D]"
    using assms(2) brace_chars(2) by (simp add: list_all_iff)
  have "span_at ([0x7B, 0x7B] @ t @ [0x7D, 0x7D]) = Some ([0x7B, 0x7B] @ t @ [0x7D, 0x7D], [])"
    using assms(1) by (simp add: tw dw)
  then show ?thesis by simp
qed

lemma primaryPlaceholders_eq: "primaryPlaceholders v = Inr (string_tokens v)"
  by (cases v) (simp_all add: primaryPlaceholders_def string_tokens_def extract_string)

lemma msgPlaceholders_of_eq:
  "msgPlaceholders_of e k v = Inr (string_tokens v @ string_tokens (get_prop e k))"
  by (cases "get_prop e k")
     (simp_all add: msgPlaceholders_of_def primaryPlaceholders_eq string_tokens_def extract_string)

lemma store_placeholders_eq:
  "store_placeholders e k (string_tokens v @ string_tokens (get_prop e k)) res =
     (case stored e k v of None \<Rightarrow> Inr res | Some x \<Rightarrow> assign res k x)"
  by (simp add: store_placeholders_def stored_def Let_def)

text \<open>The builder throws nothing; the model of it stops only at the key \<^verbatim>\<open>__proto__\<close>.\<close>

lemma extractEntries_failure: "extractEntries e t acc = Inl x \<Longrightarrow> x = NotModelled"
proof (induction t arbitrary: acc)
  case Nil
  then show ?case by simp
next
  case (Cons a t)
  obtain k v where a: "a = (k, v)" by (cases a)
  from Cons.prems show ?case
    by (auto simp: a msgPlaceholders_of_eq store_placeholders_eq assign_def
        split: option.splits sum.splits if_splits dest: Cons.IH)
qed

lemma extractEntries_total:
  "PROTO \<notin> fst ` set t \<Longrightarrow> \<exists>index. extractEntries e t acc = Inr index"
proof (induction t arbitrary: acc)
  case Nil
  then show ?case by simp
next
  case (Cons a t)
  obtain k v where a: "a = (k, v)" by (cases a)
  from Cons.prems have k: "k \<noteq> PROTO" and t: "PROTO \<notin> fst ` set t"
    by (auto simp: a)
  from Cons.IH [OF t] k show ?case
    by (simp add: a msgPlaceholders_of_eq store_placeholders_eq assign_def split: option.splits)
qed

lemma extract_failure: "extractPlaceholdersFromTranslations t e = Inl x \<Longrightarrow> x = NotModelled"
  by (simp add: extractPlaceholdersFromTranslations_def extractEntries_failure)

lemma extract_total:
  "PROTO \<notin> fst ` set t \<Longrightarrow> \<exists>index. extractPlaceholdersFromTranslations t e = Inr index"
  by (simp add: extractPlaceholdersFromTranslations_def extractEntries_total)

lemma token_props:
  assumes "t \<in> set (tokens s)"
  shows "replace_MUSTACHE_REPLACER t = t" and "list_all is_matcher_char t" and "0x7B \<notin> set t"
proof -
  from assms obtain m where m: "m \<in> set (all_matches s)" and t: "t = replace_MUSTACHE_REPLACER m"
    by (auto simp: tokens_def)
  from all_matches_shape [OF m] obtain body where
    body: "list_all is_matcher_char body" "m = [0x7B, 0x7B] @ body @ [0x7D, 0x7D]"
    by blast
  have tb: "t = filter (\<lambda>c. \<not> is_replacer_char c) body"
    using t body(2) brace_chars by (simp add: replace_MUSTACHE_REPLACER_def)
  show "replace_MUSTACHE_REPLACER t = t"
    by (simp add: t strip_idem)
  show "list_all is_matcher_char t"
    using body(1) by (auto simp: tb list_all_iff)
  show "0x7B \<notin> set t"
    using brace_chars(3) by (auto simp: tb)
qed



section \<open>Non-string values (claim C8)\<close>

text \<open>
  C8: a value that is not a string never reaches the extractor, since the index builder
  guards both calls of it with \<^verbatim>\<open>typeof ... === 'string'\<close> (lines 170 and 173). A
  message that is not a string contributes the empty list, and so does an extra value
  that is not a string. The builder throws nothing, whatever values the translation set
  holds: it returns an index (the model of it does unless a key is \<^verbatim>\<open>__proto__\<close>,
  where it stops).
\<close>

theorem builder_guards_non_strings:
  assumes "typeof msgSrc \<noteq> TString"
  shows "primaryPlaceholders msgSrc = Inr []
       \<and> (typeof (get_prop extraPlaceholders msgKey) \<noteq> TString \<longrightarrow>
            msgPlaceholders_of extraPlaceholders msgKey msgSrc = Inr [])
       \<and> ((msgKey, msgSrc) \<in> set translations \<longrightarrow>
            (\<forall>e. extractPlaceholdersFromTranslations translations extra = Inl e \<longrightarrow> e = NotModelled)
            \<and> (PROTO \<notin> fst ` set translations \<longrightarrow>
                 (\<exists>index. extractPlaceholdersFromTranslations translations extra = Inr index)))"
proof -
  have a: "string_tokens msgSrc = []"
    using assms by (cases msgSrc) (simp_all add: string_tokens_def)
  have b: "typeof v \<noteq> TString \<Longrightarrow> string_tokens v = []" for v
    by (cases v) (simp_all add: string_tokens_def)
  show ?thesis
    using extract_failure extract_total
    by (simp add: primaryPlaceholders_eq msgPlaceholders_of_eq a b)
qed

theorem builder_guards_non_strings_witness:
  "typeof (JNum 5) \<noteq> TString
   \<and> primaryPlaceholders (JNum 5) = Inr []
   \<and> msgPlaceholders_of [] (lit ''count'') (JNum 5) = Inr []
   \<and> (\<exists>index. extractPlaceholdersFromTranslations [(lit ''count'', JNum 5)] None = Inr index)"
proof -
  have n: "typeof (JNum 5) \<noteq> TString"
    by simp
  have e: "typeof (get_prop [] (lit ''count'')) \<noteq> TString"
    by (simp add: get_prop_def inherited_def PROTO_def Object_prototype_functions_def lit_def)
  have m: "(lit ''count'', JNum 5) \<in> set [(lit ''count'', JNum 5)]"
    by simp
  have p: "PROTO \<notin> fst ` set [(lit ''count'', JNum 5)]"
    by (simp add: PROTO_def lit_def)
  from builder_guards_non_strings [OF n, of "[]" "lit ''count''" "[(lit ''count'', JNum 5)]" None]
    n e m p
  show ?thesis
    by blast
qed

section \<open>Extracting again (claim C9)\<close>

text \<open>
  C9, as the spec states it, fails: the message \<^verbatim>\<open>{{a}}\<close> gives the token \<^verbatim>\<open>a\<close>, and
  the extractor applied to that normalised token gives no token at all, since a token
  has lost its braces.
\<close>

theorem bare_token_is_no_placeholder:
  "extractPlaceholdersKeysFromMsg (JStr (lit ''{{a}}'')) = Inr [lit ''a'']
   \<and> extractPlaceholdersKeysFromMsg (JStr (lit ''a'')) = Inr []"
  by (simp add: extract_string tokens_def lit_def replace_MUSTACHE_REPLACER_def
      is_matcher_char_def is_replacer_char_def is_space_char_def is_word_char_def)

text \<open>
  C9, amended: for every token \<open>t\<close> extracted from a message, normalising \<open>t\<close> again
  leaves it unchanged; the extractor finds no placeholder in the bare token; and when
  \<open>t\<close> is not empty, extracting from \<open>t\<close> wrapped in double braces again gives exactly
  \<open>[t]\<close>.
\<close>

theorem reextraction_of_tokens:
  assumes "extractPlaceholdersKeysFromMsg (JStr s) = Inr toks" and "t \<in> set toks"
  shows "replace_MUSTACHE_REPLACER t = t
       \<and> extractPlaceholdersKeysFromMsg (JStr t) = Inr []
       \<and> (t \<noteq> [] \<longrightarrow>
            extractPlaceholdersKeysFromMsg (JStr ([0x7B, 0x7B] @ t @ [0x7D, 0x7D])) = Inr [t])"
proof -
  from assms have t: "t \<in> set (tokens s)"
    by (simp add: extract_string)
  note p = token_props [OF t]
  have bare: "extractPlaceholdersKeysFromMsg (JStr t) = Inr []"
    by (simp add: extract_string tokens_def no_brace_no_match [OF p(3)])
  have wrapped: "extractPlaceholdersKeysFromMsg (JStr ([0x7B, 0x7B] @ t @ [0x7D, 0x7D])) = Inr [t]"
    if "t \<noteq> []"
  proof -
    have "tokens ([0x7B, 0x7B] @ t @ [0x7D, 0x7D]) = [replace_MUSTACHE_REPLACER ([0x7B, 0x7B] @ t @ [0x7D, 0x7D])]"
      unfolding tokens_def wrapped_match [OF that p(2)] by simp
    also have "replace_MUSTACHE_REPLACER ([0x7B, 0x7B] @ t @ [0x7D, 0x7D]) = replace_MUSTACHE_REPLACER t"
      using brace_chars by (simp add: replace_MUSTACHE_REPLACER_def)
    finally show ?thesis
      by (simp add: extract_string p(1))
  qed
  show ?thesis
    using p(1) bare wrapped by simp
qed

theorem reextraction_of_tokens_witness:
  "extractPlaceholdersKeysFromMsg (JStr (lit ''Hi {{ ^name }}'')) = Inr [lit ''name'']
   \<and> replace_MUSTACHE_REPLACER (lit ''name'') = lit ''name''
   \<and> extractPlaceholdersKeysFromMsg (JStr (lit ''name'')) = Inr []
   \<and> extractPlaceholdersKeysFromMsg (JStr (lit ''{{name}}'')) = Inr [lit ''name'']"
proof -
  have e: "extractPlaceholdersKeysFromMsg (JStr (lit ''Hi {{ ^name }}'')) = Inr [lit ''name'']"
    by (simp add: extract_string tokens_def lit_def replace_MUSTACHE_REPLACER_def
        is_matcher_char_def is_replacer_char_def is_space_char_def is_word_char_def)
  have w: "lit ''{{name}}'' = [0x7B, 0x7B] @ lit ''name'' @ [0x7D, 0x7D]"
    by (simp add: lit_def)
  have n: "lit ''name'' \<noteq> []"
    by (simp add: lit_def)
  show ?thesis
    using reextraction_of_tokens [OF e, of "lit ''name''"] e n unfolding w by simp
qed

section \<open>The placeholder index (claim C7)\<close>

lemma assign_Inr:
  "assign res k x = Inr res' \<Longrightarrow> k \<noteq> PROTO \<and> map_of res' = (map_of res)(k \<mapsto> x)"
  by (auto simp: assign_def update_conv' split: if_splits)

lemma extractEntries_step:
  assumes "extractEntries e ((k, v) # t) acc = Inr idx"
  obtains acc' where "extractEntries e t acc' = Inr idx"
    and "map_of acc' = (case stored e k v of None \<Rightarrow> map_of acc | Some x \<Rightarrow> (map_of acc)(k \<mapsto> x))"
    and "stored e k v \<noteq> None \<Longrightarrow> k \<noteq> PROTO"
proof (cases "stored e k v")
  case None
  with assms have "extractEntries e t acc = Inr idx"
    by (simp add: msgPlaceholders_of_eq store_placeholders_eq)
  with None that show ?thesis by simp
next
  case (Some x)
  with assms obtain acc' where a: "assign acc k x = Inr acc'" and r: "extractEntries e t acc' = Inr idx"
    by (auto simp: msgPlaceholders_of_eq store_placeholders_eq split: sum.splits)
  from assign_Inr [OF a] Some r that show ?thesis by simp
qed

lemma extractEntries_origin:
  assumes "extractEntries e t acc = Inr idx" and "map_of idx k = Some x"
  shows "map_of acc k = Some x \<or> (\<exists>v. (k, v) \<in> set t \<and> stored e k v = Some x)"
  using assms
proof (induction t arbitrary: acc)
  case Nil
  then show ?case by simp
next
  case (Cons a t)
  obtain k' v' where a: "a = (k', v')" by (cases a)
  from Cons.prems(1) obtain acc' where
    r: "extractEntries e t acc' = Inr idx"
    and m: "map_of acc' = (case stored e k' v' of None \<Rightarrow> map_of acc | Some x \<Rightarrow> (map_of acc)(k' \<mapsto> x))"
    unfolding a by (rule extractEntries_step)
  from Cons.IH [OF r Cons.prems(2)]
  consider "map_of acc' k = Some x" | "\<exists>v. (k, v) \<in> set t \<and> stored e k v = Some x"
    by blast
  then show ?case
  proof cases
    case 1
    then show ?thesis
      by (auto simp: a m split: option.splits if_splits)
  next
    case 2
    then show ?thesis by auto
  qed
qed

lemma extractEntries_lookup:
  assumes "distinct (map fst t)" and "extractEntries e t acc = Inr idx"
  shows "map_of idx k =
     (case map_of t k of
        None \<Rightarrow> map_of acc k
      | Some v \<Rightarrow> (case stored e k v of None \<Rightarrow> map_of acc k | Some x \<Rightarrow> Some x))"
  using assms
proof (induction t arbitrary: acc)
  case Nil
  then show ?case by simp
next
  case (Cons a t)
  obtain k' v' where a: "a = (k', v')" by (cases a)
  from Cons.prems have d: "distinct (map fst t)" and nk: "k' \<notin> fst ` set t"
    by (simp_all add: a)
  from Cons.prems(2) obtain acc' where
    r: "extractEntries e t acc' = Inr idx"
    and m: "map_of acc' = (case stored e k' v' of None \<Rightarrow> map_of acc | Some x \<Rightarrow> (map_of acc)(k' \<mapsto> x))"
    unfolding a by (rule extractEntries_step)
  note ih = Cons.IH [OF d r]
  show ?case
  proof (cases "k = k'")
    case True
    with nk have "map_of t k = None"
      by (simp add: map_of_eq_None_iff)
    then show ?thesis
      using ih True by (simp add: a m split: option.splits)
  next
    case False
    then show ?thesis
      using ih by (simp add: a m split: option.splits)
  qed
qed

lemma stored_cases:
  assumes "stored e k v = Some x"
  shows "(\<exists>toks. toks \<noteq> [] \<and> distinct toks \<and> x = JArr (map JStr toks))
       \<or> (truthy x \<and> x = get_prop e k \<and> msgPlaceholders_of e k v = Inr [])"
proof (cases "string_tokens v @ string_tokens (get_prop e k) = []")
  case True
  with assms show ?thesis
    by (auto simp: stored_def Let_def msgPlaceholders_of_eq split: if_splits)
next
  case False
  with assms have "x = JArr (map JStr (uniq (string_tokens v @ string_tokens (get_prop e k))))"
    by (auto simp: stored_def Let_def split: if_splits)
  moreover have "uniq (string_tokens v @ string_tokens (get_prop e k)) \<noteq> []"
    using False by (simp add: uniq_eq_Nil)
  ultimately show ?thesis
    using distinct_uniq by blast
qed

text \<open>
  C7, as the spec states it, fails: a value of the extra set is stored as it is when it
  is truthy, and an empty array is truthy. With \<^verbatim>\<open>farewell = Bye\<close> in the primary set
  and an empty array under \<^verbatim>\<open>farewell\<close> in the extra set, the index stores the empty
  array.
\<close>

theorem empty_array_is_passed_through:
  "extractPlaceholdersFromTranslations [(lit ''farewell'', JStr (lit ''Bye''))]
     (Some [(lit ''farewell'', JArr [])]) = Inr [(lit ''farewell'', JArr [])]"
  by (simp add: extractPlaceholdersFromTranslations_def msgPlaceholders_of_eq string_tokens_def
      tokens_def store_placeholders_def assign_def PROTO_def get_prop_def lit_def)

text \<open>
  The same happens without an extra set under a key that names a function of
  \<^verbatim>\<open>Object.prototype\<close>: the read of the default \<^verbatim>\<open>{}\<close> finds the inherited function,
  which is truthy and is stored.
\<close>

lemma inherited_function_is_passed_through:
  "extractPlaceholdersFromTranslations [(lit ''toString'', JStr (lit ''Bye''))] None
     = Inr [(lit ''toString'', JFun)]"
  by (simp add: extractPlaceholdersFromTranslations_def msgPlaceholders_of_eq string_tokens_def
      tokens_def store_placeholders_def assign_def PROTO_def get_prop_def inherited_def
      Object_prototype_functions_def lit_def)

text \<open>
  C7, amended: for a primary set without the key \<^verbatim>\<open>__proto__\<close>, every value the index
  stores under a key is either a non-empty list of distinct extracted tokens, or, when
  the combined extracted list of the key is empty, the value that reading the key from
  the extra set gives (its own property or, under a key that names a member of
  \<^verbatim>\<open>Object.prototype\<close>, the inherited member), taken as it is, which is truthy. A key
  of the primary set whose combined list is empty and for which that value is not truthy
  is left out. So the index never stores an empty extracted list; of a value passed
  through it is only known that it is truthy.
\<close>

theorem index_values:
  assumes "PROTO \<notin> fst ` set translations"
    and "extraPlaceholders = (case extra of None \<Rightarrow> [] | Some given \<Rightarrow> given)"
  shows "\<exists>index. extractPlaceholdersFromTranslations translations extra = Inr index
       \<and> (\<forall>v. map_of index msgKey = Some v \<longrightarrow>
            (\<exists>toks. toks \<noteq> [] \<and> distinct toks \<and> v = JArr (map JStr toks))
          \<or> (truthy v \<and> v = get_prop extraPlaceholders msgKey
              \<and> (\<exists>msgSrc. (msgKey, msgSrc) \<in> set translations
                    \<and> msgPlaceholders_of extraPlaceholders msgKey msgSrc = Inr [])))
       \<and> (\<forall>msgSrc. distinct (map fst translations) \<and> (msgKey, msgSrc) \<in> set translations
            \<and> msgPlaceholders_of extraPlaceholders msgKey msgSrc = Inr []
            \<and> \<not> truthy (get_prop extraPlaceholders msgKey) \<longrightarrow> map_of index msgKey = None)"
proof -
  from extract_total [OF assms(1), of extra] obtain index where
    ex: "extractPlaceholdersFromTranslations translations extra = Inr index"
    by blast
  with assms(2) have run: "extractEntries extraPlaceholders translations [] = Inr index"
    by (simp add: extractPlaceholdersFromTranslations_def)
  have first: "(\<exists>toks. toks \<noteq> [] \<and> distinct toks \<and> v = JArr (map JStr toks))
          \<or> (truthy v \<and> v = get_prop extraPlaceholders msgKey
              \<and> (\<exists>msgSrc. (msgKey, msgSrc) \<in> set translations
                    \<and> msgPlaceholders_of extraPlaceholders msgKey msgSrc = Inr []))"
    if "map_of index msgKey = Some v" for v
  proof -
    from extractEntries_origin [OF run that] obtain msgSrc where
      "(msgKey, msgSrc) \<in> set translations" "stored extraPlaceholders msgKey msgSrc = Some v"
      by auto
    then show ?thesis
      using stored_cases by blast
  qed
  have second: "map_of index msgKey = None"
    if "distinct (map fst translations)" "(msgKey, msgSrc) \<in> set translations"
      "msgPlaceholders_of extraPlaceholders msgKey msgSrc = Inr []"
      "\<not> truthy (get_prop extraPlaceholders msgKey)" for msgSrc
  proof -
    have "map_of translations msgKey = Some msgSrc"
      using that(1,2) by simp
    moreover have "stored extraPlaceholders msgKey msgSrc = None"
      using that(3,4) by (simp add: stored_def msgPlaceholders_of_eq)
    ultimately show ?thesis
      using extractEntries_lookup [OF that(1) run, of msgKey] by simp
  qed
  show ?thesis
    using ex first second by blast
qed

theorem index_values_witness:
  "extractPlaceholdersFromTranslations
     [(lit ''greeting'', JStr (lit ''Hello {{name}} {{ name }}'')), (lit ''farewell'', JStr (lit ''Bye''))]
     None = Inr [(lit ''greeting'', JArr [JStr (lit ''name'')])]
   \<and> (\<exists>toks. toks \<noteq> [] \<and> distinct toks \<and> JArr [JStr (lit ''name'')] = JArr (map JStr toks))
   \<and> map_of [(lit ''greeting'', JArr [JStr (lit ''name'')])] (lit ''farewell'') = None"
proof -
  let ?t = "[(lit ''greeting'', JStr (lit ''Hello {{name}} {{ name }}'')), (lit ''farewell'', JStr (lit ''Bye''))]"
  let ?i = "[(lit ''greeting'', JArr [JStr (lit ''name'')])]"
  have run: "extractPlaceholdersFromTranslations ?t None = Inr ?i"
    by (simp add: extractPlaceholdersFromTranslations_def msgPlaceholders_of_eq string_tokens_def
        tokens_def store_placeholders_def assign_def PROTO_def get_prop_def inherited_def
        Object_prototype_functions_def lit_def uniq_def replace_MUSTACHE_REPLACER_def
        is_matcher_char_def is_replacer_char_def is_space_char_def is_word_char_def)
  have p: "PROTO \<notin> fst ` set ?t"
    by (simp add: PROTO_def lit_def)
  have e: "[] = (case None :: js_object option of None \<Rightarrow> [] | Some given \<Rightarrow> given)"
    by simp
  have g: "map_of ?i (lit ''greeting'') = Some (JArr [JStr (lit ''name'')])"
    by simp
  have u: "get_prop [] (lit ''greeting'') = JUndefined" "get_prop [] (lit ''farewell'') = JUndefined"
    by (simp_all add: get_prop_def inherited_def PROTO_def Object_prototype_functions_def lit_def)
  have f: "distinct (map fst ?t)" "(lit ''farewell'', JStr (lit ''Bye'')) \<in> set ?t"
    "msgPlaceholders_of [] (lit ''farewell'') (JStr (lit ''Bye'')) = Inr []"
    using u by (simp_all add: msgPlaceholders_of_eq string_tokens_def tokens_def) (simp_all add: lit_def)
  from index_values [OF p e, of "lit ''greeting''"] run g u
  have a: "\<exists>toks. toks \<noteq> [] \<and> distinct toks \<and> JArr [JStr (lit ''name'')] = JArr (map JStr toks)"
    by auto
  from index_values [OF p e, of "lit ''farewell''"] run f u
  have b: "map_of ?i (lit ''farewell'') = None"
    by (metis truthy.simps(1) sum.inject(2))
  show ?thesis
    using run a b by simp
qed

section \<open>Facts about the file validator\<close>



lemma js_includes_modelled: "js_includes recv (JStr t) \<noteq> Inl NotModelled"
  by (cases recv) simp_all

lemma every_includes_loop_modelled:
  "every_includes_loop (map JStr us) recv \<noteq> Inl NotModelled"
proof (induction us)
  case Nil
  then show ?case by simp
next
  case (Cons u us)
  then show ?case
    using js_includes_modelled [of recv u] by (auto split: sum.splits)
qed

lemma every_includes_failure:
  "every_includes ms recv = Inl e \<Longrightarrow> e = TypeError \<or> e = NotModelled"
proof -
  have inc: "js_includes recv el = Inl e \<Longrightarrow> e = TypeError \<or> e = NotModelled" for el
    by (cases "(recv, el)" rule: js_includes.cases) auto
  have loop: "every_includes_loop els recv = Inl e \<Longrightarrow> e = TypeError \<or> e = NotModelled" for els
    by (induction els) (auto split: sum.splits if_splits dest: inc)
  show "every_includes ms recv = Inl e \<Longrightarrow> e = TypeError \<or> e = NotModelled"
    by (cases ms) (auto simp: every_includes_def dest: loop)
qed

lemma checkMessage_findings:
  assumes "checkMessage l mf ph tp ce k v = (Inr found, ev)"
  shows "list_all (\<lambda>f. key f = k \<and> lang f = l \<and> cause f = None) found"
  using assms
  by (auto simp: checkMessage_def Let_def empty_message_def missed_placeholder_def
      wrong_placeholder_def wrong_messageformat_def
      split: if_splits js_value.splits option.splits sum.splits)


lemma checkMessage_events:
  assumes "Compiled l' m \<in> set (snd (checkMessage l mf ph tp ce k v))"
  shows "l' = l \<and> v = JStr m \<and> match_MUSTACHE m = None \<and> mf \<noteq> None"
  using assms
  by (auto simp: checkMessage_def Let_def
      split: if_splits js_value.splits option.splits sum.splits)

lemma checkMessage_no_parse: "Parsed p \<notin> set (snd (checkMessage l mf ph tp ce k v))"
  by (auto simp: checkMessage_def Let_def
      split: if_splits js_value.splits option.splits sum.splits)

lemma checkMessage_failure:
  "checkMessage l mf ph tp ce k v = (Inl e, ev) \<Longrightarrow> e = TypeError \<or> e = NotModelled"
  by (auto simp: checkMessage_def Let_def dest: every_includes_failure
      split: if_splits js_value.splits option.splits sum.splits)

lemma checkEntries_events:
  assumes "Compiled l' m \<in> set (snd (checkEntries l mf ph tp ce t))"
  shows "l' = l \<and> (\<exists>k. (k, JStr m) \<in> set t) \<and> match_MUSTACHE m = None \<and> mf \<noteq> None"
  using assms
proof (induction t)
  case Nil
  then show ?case by simp
next
  case (Cons a t)
  obtain k v where a: "a = (k, v)" by (cases a)
  from Cons.prems have
    "Compiled l' m \<in> set (snd (checkMessage l mf ph tp ce k v))
     \<or> Compiled l' m \<in> set (snd (checkEntries l mf ph tp ce t))"
    by (auto simp: a split: prod.splits sum.splits)
  then show ?case
  proof
    assume "Compiled l' m \<in> set (snd (checkMessage l mf ph tp ce k v))"
    from checkMessage_events [OF this] show ?thesis
      by (auto simp: a)
  next
    assume "Compiled l' m \<in> set (snd (checkEntries l mf ph tp ce t))"
    from Cons.IH [OF this] show ?thesis
      by auto
  qed
qed

lemma checkEntries_no_parse: "Parsed p \<notin> set (snd (checkEntries l mf ph tp ce t))"
proof (induction t)
  case Nil
  then show ?case by simp
next
  case (Cons a t)
  obtain k v where a: "a = (k, v)" by (cases a)
  show ?case
    using Cons checkMessage_no_parse [of p l mf ph tp ce k v]
    by (auto simp: a split: prod.splits sum.splits)
qed

lemma checkEntries_failure:
  "checkEntries l mf ph tp ce t = (Inl e, ev) \<Longrightarrow> e = TypeError \<or> e = NotModelled"
proof (induction t arbitrary: ev)
  case Nil
  then show ?case by simp
next
  case (Cons a t)
  obtain k v where a: "a = (k, v)" by (cases a)
  from Cons.prems show ?case
    by (auto simp: a split: prod.splits sum.splits dest: checkMessage_failure Cons.IH)
qed

text \<open>
  A file that is validated to the end has one step per entry, none of which threw, and
  its findings are those of the steps, in the order of the entries.
\<close>

lemma checkEntries_concat:
  assumes "checkEntries l mf ph tp ce t = (Inr errors, ev)"
  shows "errors = concat (map (\<lambda>(k, v). pushed (checkMessage l mf ph tp ce k v)) t)
       \<and> list_all (\<lambda>(k, v). \<exists>found. fst (checkMessage l mf ph tp ce k v) = Inr found) t"
  using assms
proof (induction t arbitrary: errors ev)
  case Nil
  then show ?case by simp
next
  case (Cons a t)
  obtain k v where a: "a = (k, v)" by (cases a)
  from Cons.prems obtain found e1 rest e2 where
    step: "checkMessage l mf ph tp ce k v = (Inr found, e1)"
    and tail: "checkEntries l mf ph tp ce t = (Inr rest, e2)"
    and errors: "errors = found @ rest"
    by (auto simp: a split: prod.splits sum.splits)
  from Cons.IH [OF tail] show ?case
    by (simp add: a errors step pushed_def)
qed


text \<open>
  The loop over the entries ends with the first error a step throws, if any, and
  otherwise with the findings of all the steps in order: what a step pushes never ends
  the loop.
\<close>

lemma checkEntries_outcome:
  "fst (checkEntries l mf ph tp ce t) =
     (case first_thrown (map (\<lambda>(k, v). fst (checkMessage l mf ph tp ce k v)) t) of
        Some e \<Rightarrow> Inl e
      | None \<Rightarrow> Inr (concat (map (\<lambda>(k, v). pushed (checkMessage l mf ph tp ce k v)) t)))"
proof (induction t)
  case Nil
  then show ?case by simp
next
  case (Cons a t)
  obtain k v where a: "a = (k, v)" by (cases a)
  obtain r ev where step: "checkMessage l mf ph tp ce k v = (r, ev)"
    by (cases "checkMessage l mf ph tp ce k v")
  obtain r2 ev2 where tail: "checkEntries l mf ph tp ce t = (r2, ev2)"
    by (cases "checkEntries l mf ph tp ce t")
  show ?case
  proof (cases r)
    case (Inl e)
    with step show ?thesis by (simp add: a)
  next
    case (Inr found)
    with step tail Cons.IH show ?thesis
      by (cases r2) (auto simp: a pushed_def split: option.splits)
  qed
qed



lemma own_index_values:
  assumes "extractPlaceholdersFromTranslations t None = Inr ph"
  shows "(\<exists>us. get_prop ph k = JArr (map JStr us)) \<or> get_prop ph k = JUndefined
       \<or> get_prop ph k = JObj \<or> get_prop ph k = JFun"
proof (cases "map_of ph k")
  case None
  then show ?thesis by (simp add: get_prop_def inherited_def)
next
  case (Some x)
  from assms have run: "extractEntries [] t [] = Inr ph"
    by (simp add: extractPlaceholdersFromTranslations_def)
  from extractEntries_origin [OF run Some] obtain v where "stored [] k v = Some x"
    by auto
  then have "(\<exists>us. x = JArr (map JStr us)) \<or> x = inherited k"
    by (auto simp: stored_def Let_def get_prop_def split: if_splits)
  with Some show ?thesis
    by (auto simp: get_prop_def inherited_def split: if_splits)
qed

section \<open>Evaluating the sample directory\<close>

lemmas sample_defs = sample_world_def sample_en_def sample_es_def sample_ex_def sample_error_def
  sample_compiler_def ES_FILE_def EN_FILE_def EX_FILE_def all_on_def all_off_def en_only_def

lemmas char_defs = lit_def is_matcher_char_def is_replacer_char_def is_space_char_def
  is_word_char_def replace_MUSTACHE_REPLACER_def

lemmas run_defs = checkFileTranslations_def extractPlaceholdersFromTranslations_def
  msgPlaceholders_of_eq string_tokens_def tokens_def store_placeholders_def assign_def PROTO_def
  get_prop_def inherited_def Object_prototype_functions_def uniq_def
  checkMessage_def match_MUSTACHE_def every_includes_def

lemma sample_es_run:
  "checkFileTranslations sample_world sample_es ES_FILE
     (Some [(lit ''greeting'', JArr [JStr (lit ''name''), JStr (lit ''title'')])])
     (JBool True) (JBool True) =
   (Inr [wrong_placeholder (lit ''es'') (lit ''greeting''),
         missed_placeholder (lit ''es'') (lit ''farewell''),
         empty_message (lit ''es'') (lit ''count''),
         wrong_messageformat (lit ''es'') (lit ''plural'') (lit ''{count, plural, one{1} other{}'')
           sample_error],
    [Compiled (lit ''es'') (lit ''{count, plural, one{1} other{}'')])"
  by (simp add: sample_defs run_defs char_defs Let_def)




section \<open>Placeholder findings (claim C3)\<close>




section \<open>The cause of a finding (claim C4)\<close>

lemma findings_have_no_cause:
  assumes "checkFileTranslations w translations fileName templatePlaceholders
             checkMessageformat' checkEmpties' = (Inr errors, ev)"
  shows "list_all (\<lambda>f. cause f = None) errors"
proof -
  obtain ph where ph: "extractPlaceholdersFromTranslations translations None = Inr ph"
    using assms
    by (cases "extractPlaceholdersFromTranslations translations None")
       (simp_all add: checkFileTranslations_def Let_def)
  obtain l mf where run: "checkEntries l mf ph templatePlaceholders checkEmpties' translations
      = (Inr errors, ev)"
    using assms by (simp add: checkFileTranslations_def Let_def ph)
  have "cause f = None" if "f \<in> set errors" for f
  proof -
    from that checkEntries_concat [OF run] obtain k v where
      "f \<in> set (pushed (checkMessage l mf ph templatePlaceholders checkEmpties' k v))"
      by auto
    then show ?thesis
      using checkMessage_findings [of l mf ph templatePlaceholders checkEmpties' k v]
      by (cases "checkMessage l mf ph templatePlaceholders checkEmpties' k v")
         (auto simp: pushed_def list_all_iff split: sum.splits)
  qed
  then show ?thesis
    by (simp add: list_all_iff)
qed

text \<open>
  C4 does not hold of the code. Scenario D of the spec: a file whose language has a
  compiler, with the unterminated message
  \<^verbatim>\<open>plural = {count, plural, one{1} other{}\<close>. The file has one finding of kind
  wrong-messageformat, whose message ends with the text of the compiler's error, and
  the finding has no cause.
\<close>

theorem scenario_D_finding_has_no_cause:
  "checkFileTranslations sample_world
     [(lit ''plural'', JStr (lit ''{count, plural, one{1} other{}''))] ES_FILE None
     (JBool True) (JBool True) =
   (Inr [wrong_messageformat (lit ''es'') (lit ''plural'') (lit ''{count, plural, one{1} other{}'')
           sample_error],
    [Compiled (lit ''es'') (lit ''{count, plural, one{1} other{}'')])
   \<and> error (wrong_messageformat (lit ''es'') (lit ''plural'')
        (lit ''{count, plural, one{1} other{}'') sample_error) = WrongMessageformat
   \<and> cause (wrong_messageformat (lit ''es'') (lit ''plural'')
        (lit ''{count, plural, one{1} other{}'') sample_error) = None"
  by (simp add: sample_defs run_defs char_defs Let_def wrong_messageformat_def)

section \<open>Calls of the format compiler (claim C5)\<close>

lemma checkMessage_without_compiler:
  assumes "checkMessage l None ph tp ce k v = (Inr found, ev)"
  shows "list_all (\<lambda>f. error f \<noteq> WrongMessageformat) found"
  using assms
  by (auto simp: checkMessage_def Let_def empty_message_def missed_placeholder_def
      wrong_placeholder_def
      split: if_splits js_value.splits option.splits sum.splits)

lemma checkEntries_without_compiler:
  assumes "checkEntries l None ph tp ce t = (Inr errors, ev)"
  shows "list_all (\<lambda>f. error f \<noteq> WrongMessageformat) errors"
proof -
  have "error f \<noteq> WrongMessageformat" if "f \<in> set errors" for f
  proof -
    from that checkEntries_concat [OF assms] obtain k v where
      "f \<in> set (pushed (checkMessage l None ph tp ce k v))"
      by auto
    then show ?thesis
      using checkMessage_without_compiler [of l ph tp ce k v]
      by (cases "checkMessage l None ph tp ce k v")
         (auto simp: pushed_def list_all_iff split: sum.splits)
  qed
  then show ?thesis
    by (simp add: list_all_iff)
qed

text \<open>
  C5: every message given to the compiler during the validation of a file is a string
  message of the file without a placeholder span, and it is given only when
  \<open>checkMessageformat\<close> is truthy and the constructor gave a compiler for the language
  of the file. When the constructor fails, the compiler is called for no message, the
  validation is the one with \<open>checkMessageformat\<close> off, and no finding is of kind
  wrong-messageformat: the failure itself leaves no trace.
\<close>

theorem compiler_calls:
  assumes "checkFileTranslations w translations fileName templatePlaceholders
             checkMessageformat' checkEmpties' = (result, ev)"
  shows "(\<forall>l m. Compiled l m \<in> set ev \<longrightarrow>
            match_MUSTACHE m = None \<and> (\<exists>msgKey. (msgKey, JStr m) \<in> set translations)
            \<and> truthy checkMessageformat'
            \<and> l = fileLanguage w fileName \<and> MessageFormat w (fileLanguage w fileName) \<noteq> None)
       \<and> (MessageFormat w (fileLanguage w fileName) = None \<longrightarrow>
            ev = []
            \<and> checkFileTranslations w translations fileName templatePlaceholders
                 (JBool False) checkEmpties' = (result, ev)
            \<and> (\<forall>errors. result = Inr errors \<longrightarrow>
                  list_all (\<lambda>f. error f \<noteq> WrongMessageformat) errors))"
proof (cases "extractPlaceholdersFromTranslations translations None")
  case (Inl e)
  with assms have "result = Inl e" and "ev = []"
    by (simp_all add: checkFileTranslations_def Let_def)
  then show ?thesis
    using Inl by (simp add: checkFileTranslations_def Let_def)
next
  case (Inr ph)
  note ph = Inr
  let ?l = "fileLanguage w fileName"
  let ?mf = "if truthy checkMessageformat' then MessageFormat w ?l else None"
  have run: "checkEntries ?l ?mf ph templatePlaceholders checkEmpties' translations = (result, ev)"
    using assms by (simp add: checkFileTranslations_def Let_def ph)
  have calls: "match_MUSTACHE m = None \<and> (\<exists>msgKey. (msgKey, JStr m) \<in> set translations)
      \<and> truthy checkMessageformat' \<and> l = ?l \<and> MessageFormat w ?l \<noteq> None"
    if "Compiled l m \<in> set ev" for l m
  proof -
    from that run
    have "Compiled l m \<in> set (snd (checkEntries ?l ?mf ph templatePlaceholders checkEmpties' translations))"
      by simp
    from checkEntries_events [OF this] show ?thesis
      by (auto split: if_splits)
  qed
  have silent: "ev = []
      \<and> checkFileTranslations w translations fileName templatePlaceholders
           (JBool False) checkEmpties' = (result, ev)
      \<and> (\<forall>errors. result = Inr errors \<longrightarrow> list_all (\<lambda>f. error f \<noteq> WrongMessageformat) errors)"
    if none: "MessageFormat w ?l = None"
  proof -
    from none have mf: "?mf = None" by simp
    have "x \<notin> set ev" for x
    proof (cases x)
      case (Parsed p)
      then show ?thesis
        using checkEntries_no_parse [of p "?l" "?mf" ph templatePlaceholders "checkEmpties'" "translations"] run
        by simp
    next
      case (Compiled l m)
      then show ?thesis
        using calls [of l m] none by auto
    qed
    then have "ev = []" by (cases ev) auto
    moreover have "checkFileTranslations w translations fileName templatePlaceholders
        (JBool False) checkEmpties' = (result, ev)"
      using run mf by (simp add: checkFileTranslations_def Let_def ph)
    moreover have "list_all (\<lambda>f. error f \<noteq> WrongMessageformat) errors" if "result = Inr errors" for errors
      using run mf that checkEntries_without_compiler by simp
    ultimately show ?thesis by simp
  qed
  show ?thesis
    using calls silent by blast
qed

theorem compiler_calls_witness:
  "checkFileTranslations sample_world sample_es ES_FILE
     (Some [(lit ''greeting'', JArr [JStr (lit ''name''), JStr (lit ''title'')])])
     (JBool True) (JBool True) =
   (Inr [wrong_placeholder (lit ''es'') (lit ''greeting''),
         missed_placeholder (lit ''es'') (lit ''farewell''),
         empty_message (lit ''es'') (lit ''count''),
         wrong_messageformat (lit ''es'') (lit ''plural'') (lit ''{count, plural, one{1} other{}'')
           sample_error],
    [Compiled (lit ''es'') (lit ''{count, plural, one{1} other{}'')])
   \<and> match_MUSTACHE (lit ''{count, plural, one{1} other{}'') = None
   \<and> MessageFormat sample_world (fileLanguage sample_world ES_FILE) \<noteq> None
   \<and> MessageFormat sample_world (fileLanguage sample_world XX_FILE) = None
   \<and> checkFileTranslations sample_world sample_es XX_FILE None (JBool True) (JBool True)
       = (Inr [empty_message (lit ''xx'') (lit ''count'')], [])
   \<and> checkFileTranslations sample_world sample_es XX_FILE None (JBool False) (JBool True)
       = (Inr [empty_message (lit ''xx'') (lit ''count'')], [])"
proof -
  have c: "Compiled (lit ''es'') (lit ''{count, plural, one{1} other{}'')
      \<in> set [Compiled (lit ''es'') (lit ''{count, plural, one{1} other{}'')]"
    by simp
  have a: "match_MUSTACHE (lit ''{count, plural, one{1} other{}'') = None
      \<and> MessageFormat sample_world (fileLanguage sample_world ES_FILE) \<noteq> None"
    using compiler_calls [OF sample_es_run] c by blast
  have xx: "checkFileTranslations sample_world sample_es XX_FILE None (JBool True) (JBool True)
       = (Inr [empty_message (lit ''xx'') (lit ''count'')], [])"
    by (simp add: sample_defs XX_FILE_def run_defs char_defs Let_def)
  have none: "MessageFormat sample_world (fileLanguage sample_world XX_FILE) = None"
    by (simp add: sample_defs XX_FILE_def lit_def)
  have b: "checkFileTranslations sample_world sample_es XX_FILE None (JBool False) (JBool True)
       = (Inr [empty_message (lit ''xx'') (lit ''count'')], [])"
    using compiler_calls [OF xx] none by blast
  show ?thesis
    using sample_es_run a none xx b by blast
qed

section \<open>Facts about the orchestrator\<close>

lemma sample_run:
  "checkTranslations sample_world (Bound all_on) (lit ''dir'') Omitted =
   (Inl (TranslationException aggregate_message
      [wrong_placeholder (lit ''es'') (lit ''greeting''),
       missed_placeholder (lit ''es'') (lit ''farewell''),
       empty_message (lit ''es'') (lit ''count''),
       wrong_messageformat (lit ''es'') (lit ''plural'') (lit ''{count, plural, one{1} other{}'')
         sample_error]
      [EN_FILE, ES_FILE, EX_FILE]),
    [Parsed (lit ''dir/messages-en.properties''), Parsed (lit ''dir/messages-ex.properties''),
     Compiled (lit ''en'') (lit ''Bye''),
     Parsed (lit ''dir/messages-es.properties''),
     Compiled (lit ''es'') (lit ''{count, plural, one{1} other{}'')])"
  by (simp add: checkTranslations_def destructure_def loadTemplates_def parse_def
      validateFile_def translations_of_def
      sample_defs run_defs char_defs Let_def)

text \<open>The argument of the call plays no part, unless it is \<^verbatim>\<open>null\<close>.\<close>

lemma call_options_are_ignored:
  "checkTranslations w outer dir (Passed given) = checkTranslations w outer dir Omitted"
  by (simp add: checkTranslations_def destructure_def)



text \<open>
  The loop over the files ends with the first error a step throws, if any, and
  otherwise with the findings of all the steps in order.
\<close>

lemma validateFiles_outcome:
  "fst (validateFiles w options dir en ex tp fs) =
     (case first_thrown (map (\<lambda>f. fst (validateFile w options dir en ex tp f)) fs) of
        Some e \<Rightarrow> Inl e
      | None \<Rightarrow> Inr (concat (map (\<lambda>f. pushed (validateFile w options dir en ex tp f)) fs)))"
proof (induction fs)
  case Nil
  then show ?case by simp
next
  case (Cons f fs)
  obtain r e1 where step: "validateFile w options dir en ex tp f = (r, e1)"
    by (cases "validateFile w options dir en ex tp f")
  obtain r2 e2 where tail: "validateFiles w options dir en ex tp fs = (r2, e2)"
    by (cases "validateFiles w options dir en ex tp fs")
  show ?case
  proof (cases r)
    case (Inl e)
    with step show ?thesis by simp
  next
    case (Inr found)
    with step tail Cons.IH show ?thesis
      by (cases r2) (auto simp: pushed_def split: option.splits)
  qed
qed

text \<open>The step of a validated file is the loop over its entries.\<close>

lemma validateFile_by_key:
  assumes "translations_of w options dir en ex f = (Inr t, e1)" and "f \<noteq> EX_FILE"
    and "extractPlaceholdersFromTranslations t None = Inr ph"
  shows "fst (validateFile w options dir en ex tp f) =
     fst (checkEntries (fileLanguage w f)
       (if truthy (checkMessageformat options) then MessageFormat w (fileLanguage w f) else None)
       ph tp (checkEmpties options) t)"
  using assms
  by (simp add: validateFile_def checkFileTranslations_def Let_def split: prod.splits)

text \<open>What a step can throw: never a finding, and never the aggregate error.\<close>

lemma checkFileTranslations_failure:
  "checkFileTranslations w t f tp cm ce = (Inl e, ev) \<Longrightarrow> e = TypeError \<or> e = NotModelled"
  by (auto simp: checkFileTranslations_def Let_def split: sum.splits
      dest: extract_failure checkEntries_failure)

lemma validateFile_failure:
  assumes "fst (validateFile w options dir en ex tp f) = Inl e"
  shows "e = TypeError \<or> e = NotModelled \<or> (\<exists>reason. e = Rejected reason)"
proof -
  obtain r e1 where t: "translations_of w options dir en ex f = (r, e1)"
    by (cases "translations_of w options dir en ex f")
  show ?thesis
  proof (cases r)
    case (Inl e')
    with t assms have "e = e'"
      by (simp add: validateFile_def)
    moreover from t Inl have "\<exists>reason. e' = Rejected reason"
      by (auto simp: translations_of_def parse_def split: if_splits sum.splits)
    ultimately show ?thesis by simp
  next
    case (Inr t')
    with t assms show ?thesis
      by (auto simp: validateFile_def split: if_splits prod.splits
          dest: checkFileTranslations_failure)
  qed
qed





section \<open>The options of a call (claim C1)\<close>

lemma unbound_options_raise:
  "arg \<noteq> PassedNull \<Longrightarrow> checkTranslations w Unbound dir arg = (Inl ReferenceError, [])"
  by (cases arg) (simp_all add: checkTranslations_def destructure_def)

text \<open>
  C1 does not hold of the code. The module declares no \<^verbatim>\<open>options\<close>; in a host without
  such a global, a call that switches every check off and asks for \<^verbatim>\<open>['en']\<close> throws a
  ReferenceError before any file is looked for. In a host whose global \<^verbatim>\<open>options\<close>
  switches every check on, the same call discovers all three files and reports the four
  findings of the Spanish file: the options of the call are not read.
\<close>

theorem options_of_the_call_are_not_read:
  "checkTranslations sample_world Unbound (lit ''dir'') (Passed all_off) = (Inl ReferenceError, [])
   \<and> fst (checkTranslations sample_world (Bound all_on) (lit ''dir'') (Passed all_off)) =
       Inl (TranslationException aggregate_message
         [wrong_placeholder (lit ''es'') (lit ''greeting''),
          missed_placeholder (lit ''es'') (lit ''farewell''),
          empty_message (lit ''es'') (lit ''count''),
          wrong_messageformat (lit ''es'') (lit ''plural'') (lit ''{count, plural, one{1} other{}'')
            sample_error]
         [EN_FILE, ES_FILE, EX_FILE])"
  by (simp add: unbound_options_raise call_options_are_ignored sample_run)

section \<open>The outcome of a run (claim C2)\<close>

text \<open>
  C2: take a run that reads its options, discovers the files and loads the templates.
  The loop over the files ends with the first error that the step of a file throws, if
  any, and otherwise with the findings of all the steps in order; the step of a
  validated file is the loop over its entries, which likewise ends with the first error
  that the step of an entry throws, if any, and otherwise with the findings of all the
  entries in order. What a step throws is a TypeError of line 135 or the failure of the
  parser (or the model stops), never a finding. So no finding ends either loop; and a
  run in which no step throws ends with the file names when nothing was found, and
  otherwise with one \<open>TranslationException\<close> that carries the fixed message, all
  the findings and the file names.
\<close>

theorem findings_are_aggregated:
  assumes "arg \<noteq> PassedNull"
    and "translationFileNames w dir (languages options) = Inr fileNames"
    and "loadTemplates w options dir fileNames = (Inr (en, ex, tp), ev)"
  shows "fst (checkTranslations w (Bound options) dir arg) =
           (case first_thrown (map (\<lambda>f. fst (validateFile w options dir en ex tp f)) fileNames) of
              Some e \<Rightarrow> Inl e
            | None \<Rightarrow>
                if concat (map (\<lambda>f. pushed (validateFile w options dir en ex tp f)) fileNames) = []
                then Inr fileNames
                else Inl (TranslationException aggregate_message
                       (concat (map (\<lambda>f. pushed (validateFile w options dir en ex tp f)) fileNames))
                       fileNames))
       \<and> (\<forall>f t e1 ph. f \<noteq> EX_FILE \<and> translations_of w options dir en ex f = (Inr t, e1)
              \<and> extractPlaceholdersFromTranslations t None = Inr ph \<longrightarrow>
            fst (validateFile w options dir en ex tp f) =
              (case first_thrown (map (\<lambda>(k, v). fst (checkMessage (fileLanguage w f)
                       (if truthy (checkMessageformat options)
                        then MessageFormat w (fileLanguage w f) else None)
                       ph tp (checkEmpties options) k v)) t) of
                 Some e \<Rightarrow> Inl e
               | None \<Rightarrow> Inr (concat (map (\<lambda>(k, v). pushed (checkMessage (fileLanguage w f)
                       (if truthy (checkMessageformat options)
                        then MessageFormat w (fileLanguage w f) else None)
                       ph tp (checkEmpties options) k v)) t))))
       \<and> (\<forall>f e. fst (validateFile w options dir en ex tp f) = Inl e \<longrightarrow>
            e = TypeError \<or> e = NotModelled \<or> (\<exists>reason. e = Rejected reason))
       \<and> (\<forall>l mf ph ce k v e. fst (checkMessage l mf ph tp ce k v) = Inl e \<longrightarrow>
            e = TypeError \<or> e = NotModelled)"
proof -
  obtain r ev' where loop: "validateFiles w options dir en ex tp fileNames = (r, ev')"
    by (cases "validateFiles w options dir en ex tp fileNames")
  have "fst (checkTranslations w (Bound options) dir arg) =
      (case r of Inl e \<Rightarrow> Inl e
       | Inr errors \<Rightarrow> if errors = [] then Inr fileNames
           else Inl (TranslationException aggregate_message errors fileNames))"
    using assms loop
    by (cases arg; cases r) (simp_all add: checkTranslations_def destructure_def)
  moreover have "r = (case first_thrown (map (\<lambda>f. fst (validateFile w options dir en ex tp f)) fileNames) of
        Some e \<Rightarrow> Inl e
      | None \<Rightarrow> Inr (concat (map (\<lambda>f. pushed (validateFile w options dir en ex tp f)) fileNames)))"
    using validateFiles_outcome [of w options dir en ex tp fileNames] loop by simp
  ultimately have outcome: "fst (checkTranslations w (Bound options) dir arg) =
           (case first_thrown (map (\<lambda>f. fst (validateFile w options dir en ex tp f)) fileNames) of
              Some e \<Rightarrow> Inl e
            | None \<Rightarrow>
                if concat (map (\<lambda>f. pushed (validateFile w options dir en ex tp f)) fileNames) = []
                then Inr fileNames
                else Inl (TranslationException aggregate_message
                       (concat (map (\<lambda>f. pushed (validateFile w options dir en ex tp f)) fileNames))
                       fileNames))"
    by (simp split: option.splits)
  have by_key: "\<forall>f t e1 ph. f \<noteq> EX_FILE \<and> translations_of w options dir en ex f = (Inr t, e1)
              \<and> extractPlaceholdersFromTranslations t None = Inr ph \<longrightarrow>
            fst (validateFile w options dir en ex tp f) =
              (case first_thrown (map (\<lambda>(k, v). fst (checkMessage (fileLanguage w f)
                       (if truthy (checkMessageformat options)
                        then MessageFormat w (fileLanguage w f) else None)
                       ph tp (checkEmpties options) k v)) t) of
                 Some e \<Rightarrow> Inl e
               | None \<Rightarrow> Inr (concat (map (\<lambda>(k, v). pushed (checkMessage (fileLanguage w f)
                       (if truthy (checkMessageformat options)
                        then MessageFormat w (fileLanguage w f) else None)
                       ph tp (checkEmpties options) k v)) t)))"
    by (simp add: validateFile_by_key checkEntries_outcome)
  have thrown: "\<forall>f e. fst (validateFile w options dir en ex tp f) = Inl e \<longrightarrow>
            e = TypeError \<or> e = NotModelled \<or> (\<exists>reason. e = Rejected reason)"
    using validateFile_failure by blast
  have step: "\<forall>l mf ph ce k v e. fst (checkMessage l mf ph tp ce k v) = Inl e \<longrightarrow>
            e = TypeError \<or> e = NotModelled"
  proof (intro allI impI)
    fix l mf ph ce k v e
    assume "fst (checkMessage l mf ph tp ce k v) = Inl e"
    then show "e = TypeError \<or> e = NotModelled"
      using checkMessage_failure [of l mf ph tp ce k v e]
      by (cases "checkMessage l mf ph tp ce k v") simp
  qed
  from outcome by_key thrown step show ?thesis
    by (intro conjI)
qed

lemma sample_load:
  "loadTemplates sample_world all_on (lit ''dir'') [EN_FILE, ES_FILE, EX_FILE] =
   (Inr (sample_en, sample_ex,
         Some [(lit ''greeting'', JArr [JStr (lit ''name''), JStr (lit ''title'')])]),
    [Parsed (lit ''dir/messages-en.properties''), Parsed (lit ''dir/messages-ex.properties'')])"
  by (simp add: loadTemplates_def parse_def sample_defs run_defs char_defs Let_def)

lemma sample_validate:
  "validateFiles sample_world all_on (lit ''dir'') sample_en sample_ex
     (Some [(lit ''greeting'', JArr [JStr (lit ''name''), JStr (lit ''title'')])])
     [EN_FILE, ES_FILE, EX_FILE] =
   (Inr [wrong_placeholder (lit ''es'') (lit ''greeting''),
         missed_placeholder (lit ''es'') (lit ''farewell''),
         empty_message (lit ''es'') (lit ''count''),
         wrong_messageformat (lit ''es'') (lit ''plural'') (lit ''{count, plural, one{1} other{}'')
           sample_error],
    [Compiled (lit ''en'') (lit ''Bye''),
     Parsed (lit ''dir/messages-es.properties''),
     Compiled (lit ''es'') (lit ''{count, plural, one{1} other{}'')])"
  by (simp add: validateFile_def translations_of_def parse_def sample_defs run_defs char_defs Let_def)

lemma sample_load_en:
  "loadTemplates sample_world en_only (lit ''dir'') [EN_FILE] =
   (Inr (sample_en, [], Some [(lit ''greeting'', JArr [JStr (lit ''name'')])]),
    [Parsed (lit ''dir/messages-en.properties'')])"
  by (simp add: loadTemplates_def parse_def sample_defs run_defs char_defs Let_def)

lemma sample_validate_en:
  "validateFiles sample_world en_only (lit ''dir'') sample_en []
     (Some [(lit ''greeting'', JArr [JStr (lit ''name'')])]) [EN_FILE] =
   (Inr [], [Compiled (lit ''en'') (lit ''Bye'')])"
  by (simp add: validateFile_def translations_of_def parse_def sample_defs run_defs char_defs Let_def)

lemma sample_steps:
  "validateFile sample_world all_on (lit ''dir'') sample_en sample_ex
     (Some [(lit ''greeting'', JArr [JStr (lit ''name''), JStr (lit ''title'')])]) EN_FILE
     = (Inr [], [Compiled (lit ''en'') (lit ''Bye'')])"
  "validateFile sample_world all_on (lit ''dir'') sample_en sample_ex
     (Some [(lit ''greeting'', JArr [JStr (lit ''name''), JStr (lit ''title'')])]) ES_FILE
     = (Inr [wrong_placeholder (lit ''es'') (lit ''greeting''),
             missed_placeholder (lit ''es'') (lit ''farewell''),
             empty_message (lit ''es'') (lit ''count''),
             wrong_messageformat (lit ''es'') (lit ''plural'')
               (lit ''{count, plural, one{1} other{}'') sample_error],
        [Parsed (lit ''dir/messages-es.properties''),
         Compiled (lit ''es'') (lit ''{count, plural, one{1} other{}'')])"
  "validateFile sample_world all_on (lit ''dir'') sample_en sample_ex
     (Some [(lit ''greeting'', JArr [JStr (lit ''name''), JStr (lit ''title'')])]) EX_FILE
     = (Inr [], [])"
  "validateFile sample_world en_only (lit ''dir'') sample_en []
     (Some [(lit ''greeting'', JArr [JStr (lit ''name'')])]) EN_FILE
     = (Inr [], [Compiled (lit ''en'') (lit ''Bye'')])"
  by (simp_all add: validateFile_def translations_of_def parse_def sample_defs run_defs char_defs Let_def)

theorem findings_are_aggregated_witness:
  "fst (checkTranslations sample_world (Bound all_on) (lit ''dir'') Omitted) =
     Inl (TranslationException aggregate_message
       [wrong_placeholder (lit ''es'') (lit ''greeting''),
        missed_placeholder (lit ''es'') (lit ''farewell''),
        empty_message (lit ''es'') (lit ''count''),
        wrong_messageformat (lit ''es'') (lit ''plural'') (lit ''{count, plural, one{1} other{}'')
          sample_error]
       [EN_FILE, ES_FILE, EX_FILE])
   \<and> fst (checkTranslations sample_world (Bound en_only) (lit ''dir'') Omitted) = Inr [EN_FILE]"
proof -
  have a: "Omitted \<noteq> PassedNull" by simp
  have d: "translationFileNames sample_world (lit ''dir'') (languages all_on)
      = Inr [EN_FILE, ES_FILE, EX_FILE]"
    by (simp add: sample_world_def all_on_def)
  have d': "translationFileNames sample_world (lit ''dir'') (languages en_only) = Inr [EN_FILE]"
    by (simp add: sample_world_def en_only_def)
  show ?thesis
    using findings_are_aggregated [OF a d sample_load]
      findings_are_aggregated [OF a d' sample_load_en]
    by (simp add: sample_steps pushed_def)
qed

section \<open>The base file and the extra file (claim C6)\<close>








lemma count_list_distinct: "distinct xs \<Longrightarrow> count_list xs x \<le> 1"
  by (induction xs) (auto simp: count_list_0_iff)


















section \<open>A run without the base file (claim C10)\<close>












section \<open>The model covers every run\<close>

text \<open>
  The index of a file of its own holds arrays of strings only, so \<^verbatim>\<open>includes\<close> is
  always called with a string. A run in which the parser delivers no key \<^verbatim>\<open>__proto__\<close>
  never ends in \<open>NotModelled\<close>.
\<close>

lemma checkMessage_modelled:
  assumes "(\<exists>us. get_prop ph k = JArr (map JStr us)) \<or> get_prop ph k = JUndefined
       \<or> get_prop ph k = JObj \<or> get_prop ph k = JFun"
  shows "fst (checkMessage l mf ph tp ce k v) \<noteq> Inl NotModelled"
proof -
  have "every_includes (get_prop ph k) recv \<noteq> Inl NotModelled" for recv
    using assms every_includes_loop_modelled by (auto simp: every_includes_def)
  then show ?thesis
    by (auto simp: checkMessage_def Let_def split: js_value.splits option.splits sum.splits)
qed

lemma checkEntries_modelled:
  assumes "\<And>k. (\<exists>us. get_prop ph k = JArr (map JStr us)) \<or> get_prop ph k = JUndefined
       \<or> get_prop ph k = JObj \<or> get_prop ph k = JFun"
  shows "fst (checkEntries l mf ph tp ce t) \<noteq> Inl NotModelled"
proof (induction t)
  case Nil
  then show ?case by simp
next
  case (Cons a t)
  obtain k v where a: "a = (k, v)" by (cases a)
  from checkMessage_modelled [OF assms, of l mf tp ce k v] Cons show ?case
    by (auto simp: a split: prod.splits sum.splits)
qed

lemma checkFileTranslations_modelled:
  assumes "PROTO \<notin> fst ` set t"
  shows "fst (checkFileTranslations w t f tp cm ce) \<noteq> Inl NotModelled"
proof -
  obtain ph where ph: "extractPlaceholdersFromTranslations t None = Inr ph"
    using extract_total [OF assms] by blast
  show ?thesis
    using checkEntries_modelled [of ph, OF own_index_values [OF ph]]
    by (simp add: checkFileTranslations_def Let_def ph)
qed

lemma validateFile_modelled:
  assumes "\<forall>p t. parseProperties w p = Inr t \<longrightarrow> PROTO \<notin> fst ` set t"
    and "PROTO \<notin> fst ` set en"
  shows "fst (validateFile w options dir en ex tp f) \<noteq> Inl NotModelled"
proof -
  obtain r e1 where t: "translations_of w options dir en ex f = (r, e1)"
    by (cases "translations_of w options dir en ex f")
  show ?thesis
  proof (cases r)
    case (Inl e)
    with t have "e \<noteq> NotModelled"
      by (auto simp: translations_of_def parse_def split: if_splits sum.splits)
    with t Inl show ?thesis
      by (simp add: validateFile_def)
  next
    case (Inr t')
    have "PROTO \<notin> fst ` set t'" if "f \<noteq> EX_FILE"
      using t Inr that assms
      by (auto simp: translations_of_def parse_def split: if_splits sum.splits)
    with t Inr checkFileTranslations_modelled [of t' w f tp "checkMessageformat options" "checkEmpties options"]
    show ?thesis
      by (auto simp: validateFile_def split: prod.splits)
  qed
qed

lemma validateFiles_modelled:
  assumes "\<forall>p t. parseProperties w p = Inr t \<longrightarrow> PROTO \<notin> fst ` set t"
    and "PROTO \<notin> fst ` set en"
  shows "fst (validateFiles w options dir en ex tp fs) \<noteq> Inl NotModelled"
proof (induction fs)
  case Nil
  then show ?case by simp
next
  case (Cons f fs)
  have "fst (validateFile w options dir en ex tp f) \<noteq> Inl NotModelled"
    by (rule validateFile_modelled [OF assms])
  with Cons show ?case
    by (auto split: prod.splits sum.splits)
qed

lemma loadTemplates_modelled:
  assumes "\<forall>p t. parseProperties w p = Inr t \<longrightarrow> PROTO \<notin> fst ` set t"
  shows "fst (loadTemplates w options dir fs) \<noteq> Inl NotModelled"
    and "loadTemplates w options dir fs = (Inr (en, ex, tp), ev) \<Longrightarrow> PROTO \<notin> fst ` set en"
proof -
  have en: "PROTO \<notin> fst ` set t"
    if "(if EN_FILE \<in> set fs then parse w dir EN_FILE else (Inr [], [])) = (Inr t, e1)" for t e1
    using that assms by (auto simp: parse_def split: if_splits sum.splits)
  have m: "extractPlaceholdersFromTranslations t e \<noteq> Inl x" if "PROTO \<notin> fst ` set t" for t e x
    using extract_total [OF that, of e] by auto
  show "fst (loadTemplates w options dir fs) \<noteq> Inl NotModelled"
    using en m
    by (auto simp: loadTemplates_def split: prod.splits sum.splits)
       (auto simp: parse_def split: if_splits sum.splits)
  show "PROTO \<notin> fst ` set en" if "loadTemplates w options dir fs = (Inr (en, ex, tp), ev)"
    using that en
    by (auto simp: loadTemplates_def split: if_splits prod.splits sum.splits)
qed

lemma checkTranslations_modelled:
  assumes "\<forall>p t. parseProperties w p = Inr t \<longrightarrow> PROTO \<notin> fst ` set t"
  shows "fst (checkTranslations w outer dir arg) \<noteq> Inl NotModelled"
proof (cases outer)
  case Unbound
  then show ?thesis
    by (cases arg) (simp_all add: checkTranslations_def destructure_def)
next
  case BoundNull
  then show ?thesis
    by (cases arg) (simp_all add: checkTranslations_def destructure_def)
next
  case (Bound options)
  show ?thesis
  proof (cases "translationFileNames w dir (languages options)")
    case (Inl reason)
    with Bound show ?thesis
      by (cases arg) (simp_all add: checkTranslations_def destructure_def)
  next
    case (Inr fs)
    obtain r ev where load: "loadTemplates w options dir fs = (r, ev)"
      by (cases "loadTemplates w options dir fs")
    show ?thesis
    proof (cases r)
      case (Inl e)
      have "fst (loadTemplates w options dir fs) \<noteq> Inl NotModelled"
        by (rule loadTemplates_modelled(1) [OF assms])
      with load Inl have "e \<noteq> NotModelled"
        by auto
      with Bound Inr load Inl show ?thesis
        by (cases arg) (simp_all add: checkTranslations_def destructure_def)
    next
      case (Inr p)
      obtain en ex tp where p: "p = (en, ex, tp)" by (cases p)
      have "loadTemplates w options dir fs = (Inr (en, ex, tp), ev)"
        using load Inr p by simp
      then have "PROTO \<notin> fst ` set en"
        by (rule loadTemplates_modelled(2) [OF assms])
      then have "fst (validateFiles w options dir en ex tp fs) \<noteq> Inl NotModelled"
        by (rule validateFiles_modelled [OF assms])
      then show ?thesis
        using Bound \<open>translationFileNames w dir (languages options) = Inr fs\<close> load Inr p
        by (cases arg) (auto simp: checkTranslations_def destructure_def split: prod.splits sum.splits)
    qed
  qed
qed

end
